theory Spec2Isabelle
  imports Complex_Main "HOL-Library.List_Lexorder" "HOL-Library.Multiset"
begin

section \<open>Python values used by the ingestion pipeline\<close>

text \<open>
  A Python \<open>str\<close> is the list of its Unicode code points (\<open>ustring\<close>); \<open>ustr\<close> writes an
  ASCII literal as such a list. A \<open>bytes\<close> value is a list of 8-bit characters.

  A Python \<open>float\<close> is a binary64 value: the rational number it is equal to, an infinity,
  or NaN. The sign of a zero is not kept: the program only compares an amount with 0,
  takes its absolute value and formats that, and none of these tells \<open>-0.0\<close> from \<open>0.0\<close>.
\<close>

type_synonym ustring = "nat list"

definition ustr :: "string \<Rightarrow> ustring" where
  "ustr s = map of_char s"

datatype py_error = ValueError | AttributeError | TypeError

datatype pyfloat = Finite rat | PosInf | NegInf | NaN

text \<open>
  \<open>str.isspace\<close> on one code point: the characters of bidirectional type WS, B or S and
  of category Zs. \<open>str.strip()\<close> removes these from both ends.
\<close>

definition isspace :: "nat \<Rightarrow> bool" where
  "isspace c =
     ((0x09 \<le> c \<and> c \<le> 0x0D) \<or> (0x1C \<le> c \<and> c \<le> 0x20) \<or> c = 0x85 \<or> c = 0xA0 \<or>
      c = 0x1680 \<or> (0x2000 \<le> c \<and> c \<le> 0x200A) \<or> c = 0x2028 \<or> c = 0x2029 \<or>
      c = 0x202F \<or> c = 0x205F \<or> c = 0x3000)"

definition lstrip :: "ustring \<Rightarrow> ustring" where
  "lstrip s = dropWhile isspace s"

definition rstrip :: "ustring \<Rightarrow> ustring" where
  "rstrip s = rev (dropWhile isspace (rev s))"

definition strip :: "ustring \<Rightarrow> ustring" where
  "strip s = rstrip (lstrip s)"

text \<open>\<open>startswith s p\<close> is \<open>s.startswith(p)\<close>; \<open>contains s k\<close> is \<open>k in s\<close>.\<close>

fun startswith :: "'a list \<Rightarrow> 'a list \<Rightarrow> bool" where
  "startswith s [] = True"
| "startswith [] (p # ps) = False"
| "startswith (c # cs) (p # ps) = (c = p \<and> startswith cs ps)"

fun contains :: "'a list \<Rightarrow> 'a list \<Rightarrow> bool" where
  "contains [] k = (k = [])"
| "contains (c # cs) k = (startswith (c # cs) k \<or> contains cs k)"

text \<open>
  \<open>replace_str old new s\<close> is \<open>s.replace(old, new)\<close> for a non-empty \<open>old\<close> (every call
  site passes a literal of one character): occurrences are replaced left to right without
  overlap.
\<close>

function replace_str :: "'a list \<Rightarrow> 'a list \<Rightarrow> 'a list \<Rightarrow> 'a list" where
  "replace_str old new [] = []"
| "replace_str old new (c # cs) =
     (if old \<noteq> [] \<and> startswith (c # cs) old
      then new @ replace_str old new (drop (length old) (c # cs))
      else c # replace_str old new cs)"
  by pat_completeness auto
termination
  by (relation "measure (\<lambda>(old, new, s). length s)") auto

subsection \<open>Decimal numerals\<close>

definition digit_char :: "nat \<Rightarrow> nat" where
  "digit_char n = 48 + n"

definition digit_val :: "nat \<Rightarrow> nat" where
  "digit_val c = c - 48"

definition is_digit :: "nat \<Rightarrow> bool" where
  "is_digit c = (48 \<le> c \<and> c \<le> 57)"

text \<open>\<open>str_nat n\<close> is \<open>str(n)\<close> for a natural number; \<open>digits_val\<close> reads digits back.\<close>

fun str_nat :: "nat \<Rightarrow> ustring" where
  "str_nat n = (if n < 10 then [digit_char n] else str_nat (n div 10) @ [digit_char (n mod 10)])"

declare str_nat.simps [simp del]

definition digits_val :: "ustring \<Rightarrow> nat" where
  "digits_val s = foldl (\<lambda>a c. 10 * a + digit_val c) 0 s"

definition zfill :: "nat \<Rightarrow> ustring \<Rightarrow> ustring" where
  "zfill w s = replicate (w - length s) 48 @ s"

subsection \<open>Floats: absolute value, sign test, fixed-point formatting\<close>

fun pyabs :: "pyfloat \<Rightarrow> pyfloat" where
  "pyabs (Finite q) = Finite \<bar>q\<bar>"
| "pyabs PosInf = PosInf"
| "pyabs NegInf = PosInf"
| "pyabs NaN = NaN"

text \<open>\<open>lt_zero x\<close> is \<open>x < 0\<close>; every comparison with NaN is false.\<close>

fun lt_zero :: "pyfloat \<Rightarrow> bool" where
  "lt_zero (Finite q) = (q < 0)"
| "lt_zero NegInf = True"
| "lt_zero PosInf = False"
| "lt_zero NaN = False"

definition round_half_even :: "rat \<Rightarrow> int" where
  "round_half_even x =
     (let f = \<lfloor>x\<rfloor>; d = x - of_int f
      in if d < 1 / 2 then f
         else if 1 / 2 < d then f + 1
         else if even f then f else f + 1)"

text \<open>\<open>cents q\<close> is the non-negative amount \<open>q\<close> rounded to two decimal places, in hundredths.\<close>

definition cents :: "rat \<Rightarrow> nat" where
  "cents q = nat (round_half_even (\<bar>q\<bar> * 100))"

text \<open>
  \<open>format_2f x\<close> is \<open>f"{x:.2f}"\<close>: the value the float is equal to, correctly rounded to two
  decimals.
\<close>

fun format_2f :: "pyfloat \<Rightarrow> ustring" where
  "format_2f NaN = ustr ''nan''"
| "format_2f PosInf = ustr ''inf''"
| "format_2f NegInf = ustr ''-inf''"
| "format_2f (Finite q) =
     (let body = str_nat (cents q div 100) @ ustr ''.'' @ zfill 2 (str_nat (cents q mod 100))
      in if q < 0 then ustr ''-'' @ body else body)"

text \<open>
  The binary64 value nearest to a rational, ties to the even significand: the conversion
  that \<open>float\<close> applies to the number a decimal numeral denotes. \<open>floor_log2 a\<close> is
  \<open>\<lfloor>log\<^sub>2 a\<rfloor>\<close> for a positive \<open>a\<close>. A significand has 53 bits, the least exponent of a
  normal number is -1022, and what rounds to \<open>2\<^sup>1\<^sup>0\<^sup>2\<^sup>4\<close> or more is an infinity.
\<close>

fun bit_length :: "nat \<Rightarrow> nat" where
  "bit_length n = (if n = 0 then 0 else Suc (bit_length (n div 2)))"

declare bit_length.simps [simp del]

definition floor_log2 :: "rat \<Rightarrow> int" where
  "floor_log2 a =
     (if 1 \<le> a then int (bit_length (nat \<lfloor>a\<rfloor>)) - 1
      else - int (bit_length (nat (\<lceil>1 / a\<rceil> - 1))))"

definition pow2 :: "int \<Rightarrow> rat" where
  "pow2 e = (if 0 \<le> e then 2 ^ nat e else 1 / 2 ^ nat (- e))"

definition binary64 :: "rat \<Rightarrow> pyfloat" where
  "binary64 q =
     (if q = 0 then Finite 0
      else
        (let a = \<bar>q\<bar>;
             e = max (floor_log2 a) (- 1022) - 52;
             r = of_int (round_half_even (a / pow2 e)) * pow2 e
         in if pow2 1024 \<le> r then (if q < 0 then NegInf else PosInf)
            else Finite (if q < 0 then - r else r)))"

subsection \<open>Dates\<close>

record date =
  year :: nat
  month :: nat
  day :: nat

text \<open>\<open>strftime_Ymd d\<close> is \<open>d.strftime('%Y-%m-%d')\<close>.\<close>

definition strftime_Ymd :: "date \<Rightarrow> ustring" where
  "strftime_Ymd d =
     zfill 4 (str_nat (year d)) @ ustr ''-'' @ zfill 2 (str_nat (month d)) @ ustr ''-'' @
     zfill 2 (str_nat (day d))"

subsection \<open>Library functions\<close>

text \<open>
  The functions of the Python library and of pandas whose results depend on tables or
  algorithms outside the program are parameters of the model, collected in one record:

  \<^item> \<open>sha256\<close>: \<open>hashlib.sha256(b).digest()\<close>, from bytes to the digest bytes;
  \<^item> \<open>encode_utf8\<close>: \<open>s.encode('utf-8')\<close>;
  \<^item> \<open>str_lower\<close>: \<open>s.lower()\<close>, the Unicode lowercase mapping;
  \<^item> \<open>unicode_decimal\<close>: the decimal digit value of a code point above 127, for those
    that are decimal digits (the Unicode property that \<open>float\<close> consults);
  \<^item> \<open>to_datetime_dmY\<close>: \<open>pd.to_datetime(..., format='%d/%m/%Y')\<close> on one text cell, which
    raises, or gives a Timestamp or \<open>NaT\<close> (\<open>None\<close>).
\<close>

record py_lib =
  sha256 :: "string \<Rightarrow> string"
  encode_utf8 :: "ustring \<Rightarrow> string"
  str_lower :: "ustring \<Rightarrow> ustring"
  unicode_decimal :: "nat \<Rightarrow> nat option"
  to_datetime_dmY :: "ustring \<Rightarrow> py_error + date option"

section \<open>database.py: the content hash\<close>

text \<open>\<open>hexdigest\<close> renders a digest as lowercase hexadecimal, two characters per byte.\<close>

definition hex_digit :: "nat \<Rightarrow> nat" where
  "hex_digit n = ustr ''0123456789abcdef'' ! n"

definition hex_byte :: "char \<Rightarrow> ustring" where
  "hex_byte c = [hex_digit (of_char c div 16), hex_digit (of_char c mod 16)]"

definition hexdigest :: "string \<Rightarrow> ustring" where
  "hexdigest bs = concat (map hex_byte bs)"

definition generate_transaction_hash ::
  "py_lib \<Rightarrow> ustring \<Rightarrow> ustring \<Rightarrow> pyfloat \<Rightarrow> ustring" where
  "generate_transaction_hash py fecha_valor concepto importe =
     (let normalized_data =
            fecha_valor @ ustr ''|'' @ strip concepto @ ustr ''|'' @ format_2f (pyabs importe)
      in hexdigest (sha256 py (encode_utf8 py normalized_data)))"

section \<open>database.py: the transaction store\<close>

text \<open>
  A row of the DataFrame handed to \<open>insert_transactions\<close>. A date cell is a Timestamp or
  \<open>NaT\<close> (\<open>None\<close>); a description cell is a \<open>str\<close> or, for an empty CSV cell, the float
  NaN (\<open>None\<close>).
\<close>

record df_row =
  Fecha_valor :: "date option"
  Concepto :: "ustring option"
  Importe :: pyfloat
  Tipo :: ustring
  Category :: ustring

text \<open>
  A row of the table \<open>transactions\<close>; the timestamps are clock readings. The database is
  the table in rowid order together with the AUTOINCREMENT counter that SQLite keeps in
  \<open>sqlite_sequence\<close>.
\<close>

record db_row =
  row_id :: nat
  transaction_hash :: ustring
  fecha_valor :: ustring
  concepto :: ustring
  importe :: pyfloat
  tipo :: ustring
  category :: ustring
  upload_date :: nat
  last_modified :: nat

record database =
  transactions :: "db_row list"
  sqlite_sequence :: nat

definition init_database :: database where
  "init_database = \<lparr>transactions = [], sqlite_sequence = 0\<rparr>"

text \<open>\<open>SELECT COUNT(*) FROM transactions WHERE transaction_hash = ?\<close>, compared with 0.\<close>

definition transaction_exists :: "database \<Rightarrow> ustring \<Rightarrow> bool" where
  "transaction_exists db h = (0 < length (filter (\<lambda>r. transaction_hash r = h) (transactions db)))"

text \<open>
  The hash expression of \<open>insert_transactions\<close> (lines 124 to 128). The arguments are
  evaluated left to right: \<open>strftime\<close> on \<open>NaT\<close> raises \<open>ValueError\<close>, then \<open>strip\<close> on a
  float raises \<open>AttributeError\<close>.
\<close>

definition row_transaction_hash :: "py_lib \<Rightarrow> df_row \<Rightarrow> py_error + ustring" where
  "row_transaction_hash py row =
     (case Fecha_valor row of
        None \<Rightarrow> Inl ValueError
      | Some d \<Rightarrow>
          (case Concepto row of
             None \<Rightarrow> Inl AttributeError
           | Some c \<Rightarrow> Inr (generate_transaction_hash py (strftime_Ymd d) c (Importe row))))"

text \<open>
  \<open>INSERT OR IGNORE INTO transactions (...) VALUES (...)\<close>, returning the new database
  and \<open>cursor.rowcount\<close>. SQLite first draws the next rowid of the AUTOINCREMENT key, one
  more than the larger of the counter and the largest rowid in the table, and records it
  in \<open>sqlite_sequence\<close> when the statement ends, whether or not a row was written. The row
  is not written when it would violate \<open>transaction_hash TEXT UNIQUE\<close>, or
  \<open>importe REAL NOT NULL\<close> (SQLite binds a NaN as NULL).
\<close>

definition next_rowid :: "database \<Rightarrow> nat" where
  "next_rowid db = Suc (fold max (map row_id (transactions db)) (sqlite_sequence db))"

definition insert_or_ignore ::
  "nat \<Rightarrow> database \<Rightarrow> ustring \<Rightarrow> ustring \<Rightarrow> ustring \<Rightarrow> pyfloat \<Rightarrow> ustring \<Rightarrow> ustring
     \<Rightarrow> database \<times> nat" where
  "insert_or_ignore now db h fv c imp t cat =
     (if imp = NaN \<or> h \<in> set (map transaction_hash (transactions db))
      then (\<lparr>transactions = transactions db, sqlite_sequence = next_rowid db\<rparr>, 0)
      else (\<lparr>transactions = transactions db @
                [\<lparr>row_id = next_rowid db, transaction_hash = h, fecha_valor = fv,
                  concepto = c, importe = imp, tipo = t, category = cat,
                  upload_date = now, last_modified = now\<rparr>],
             sqlite_sequence = next_rowid db\<rparr>, 1))"

text \<open>The body of the \<open>try\<close> block for one row, up to and including \<open>cursor.execute\<close>.\<close>

definition try_insert ::
  "py_lib \<Rightarrow> nat \<Rightarrow> database \<Rightarrow> df_row \<Rightarrow> py_error + (database \<times> nat)" where
  "try_insert py now db row =
     (case row_transaction_hash py row of
        Inl e \<Rightarrow> Inl e
      | Inr h \<Rightarrow>
          Inr (insert_or_ignore now db h (strftime_Ymd (the (Fecha_valor row)))
                 (the (Concepto row)) (Importe row) (Tipo row) (Category row)))"

text \<open>
  The \<open>for\<close> loop of \<open>insert_transactions\<close> with its two counters. The \<open>except\<close> handler
  prints \<open>row['Concepto'][:50]\<close>, which raises \<open>TypeError\<close> when the cell is not a string;
  that exception leaves the function, and the connection's context manager rolls the
  transaction back, so the database is then the one before the call.
\<close>

fun insert_loop ::
  "py_lib \<Rightarrow> nat \<Rightarrow> database \<Rightarrow> nat \<Rightarrow> nat \<Rightarrow> df_row list
     \<Rightarrow> py_error + (database \<times> nat \<times> nat)" where
  "insert_loop py now db new_count duplicate_count [] =
     Inr (db, new_count, duplicate_count)"
| "insert_loop py now db new_count duplicate_count (row # rows) =
     (case try_insert py now db row of
        Inr (db', rowcount) \<Rightarrow>
          if 0 < rowcount
          then insert_loop py now db' (new_count + 1) duplicate_count rows
          else insert_loop py now db' new_count (duplicate_count + 1) rows
      | Inl e \<Rightarrow>
          (case Concepto row of
             None \<Rightarrow> Inl TypeError
           | Some c \<Rightarrow> insert_loop py now db new_count (duplicate_count + 1) rows))"

definition insert_transactions ::
  "py_lib \<Rightarrow> nat \<Rightarrow> database \<Rightarrow> df_row list \<Rightarrow> py_error + (database \<times> nat \<times> nat)" where
  "insert_transactions py now db df = insert_loop py now db 0 0 df"

text \<open>
  \<open>UPDATE transactions SET ... WHERE ...\<close>: the rows satisfying the condition are
  rewritten in place, and \<open>cursor.rowcount\<close> is their number.
\<close>

fun sql_update ::
  "(db_row \<Rightarrow> bool) \<Rightarrow> (db_row \<Rightarrow> db_row) \<Rightarrow> db_row list \<Rightarrow> db_row list \<times> nat" where
  "sql_update cond upd [] = ([], 0)"
| "sql_update cond upd (r # rs) =
     (let (rs', n) = sql_update cond upd rs
      in if cond r then (upd r # rs', Suc n) else (r # rs', n))"

definition update_transaction_category ::
  "nat \<Rightarrow> database \<Rightarrow> ustring \<Rightarrow> ustring \<Rightarrow> database" where
  "update_transaction_category now db h new_category =
     db\<lparr>transactions :=
          fst (sql_update (\<lambda>r. transaction_hash r = h)
                 (\<lambda>r. r\<lparr>category := new_category, last_modified := now\<rparr>)
                 (transactions db))\<rparr>"

definition update_transactions_by_concept ::
  "nat \<Rightarrow> database \<Rightarrow> ustring \<Rightarrow> ustring \<Rightarrow> database \<times> nat" where
  "update_transactions_by_concept now db c new_category =
     (let (rows, updated_count) =
            sql_update (\<lambda>r. concepto r = c)
              (\<lambda>r. r\<lparr>category := new_category, last_modified := now\<rparr>)
              (transactions db)
      in (db\<lparr>transactions := rows\<rparr>, updated_count))"

text \<open>
  \<open>SELECT fecha_valor, concepto, importe, tipo, category FROM transactions ORDER BY
  fecha_valor DESC\<close>. The statement fixes the rows returned and their order by the text
  column \<open>fecha_valor\<close>; it names no further sort key, so the order among rows with the
  same \<open>fecha_valor\<close> is left to the engine. \<open>select_order_by_fecha_valor_desc db res\<close>
  holds when \<open>res\<close> is a result the statement admits.
\<close>

definition select_order_by_fecha_valor_desc :: "database \<Rightarrow> db_row list \<Rightarrow> bool" where
  "select_order_by_fecha_valor_desc db res =
     (mset res = mset (transactions db) \<and>
      sorted_wrt (\<lambda>a b. fecha_valor b \<le> fecha_valor a) res)"

text \<open>The store invariant that \<open>transaction_hash TEXT UNIQUE\<close> maintains.\<close>

definition hash_unique :: "database \<Rightarrow> bool" where
  "hash_unique db = distinct (map transaction_hash (transactions db))"

text \<open>
  A well-formed row has a date, a textual description and an amount that is a number.
\<close>

definition well_formed :: "df_row \<Rightarrow> bool" where
  "well_formed row = (Fecha_valor row \<noteq> None \<and> Concepto row \<noteq> None \<and> Importe row \<noteq> NaN)"

section \<open>main.py: keyword categorisation\<close>

definition UNCATEGORIZED_CATEGORY :: ustring where
  "UNCATEGORIZED_CATEGORY = ustr ''Uncategorized''"

text \<open>
  The registry \<open>st.session_state.categories\<close> is a dict from category name to keyword
  list; it is carried as the list of its items in iteration order.
\<close>

type_synonym categories = "(ustring \<times> ustring list) list"

text \<open>
  The inner loop of \<open>categorize_transactions\<close> for one category: every row whose
  lowercased, stripped description contains one of the keywords gets that category.
  \<open>lower\<close> on a description cell that is not a string raises \<open>AttributeError\<close>.
\<close>

fun categorize_rows ::
  "py_lib \<Rightarrow> ustring \<Rightarrow> ustring list \<Rightarrow> df_row list \<Rightarrow> py_error + df_row list" where
  "categorize_rows py cat lowered_keywords [] = Inr []"
| "categorize_rows py cat lowered_keywords (row # rows) =
     (case Concepto row of
        None \<Rightarrow> Inl AttributeError
      | Some c \<Rightarrow>
          (let details = strip (str_lower py c);
               row' = (if list_ex (\<lambda>keyword. contains details keyword) lowered_keywords
                       then row\<lparr>Category := cat\<rparr> else row)
           in case categorize_rows py cat lowered_keywords rows of
                Inl e \<Rightarrow> Inl e
              | Inr rows' \<Rightarrow> Inr (row' # rows')))"

text \<open>The outer loop over the registry, which skips the sentinel and empty keyword lists.\<close>

fun categorize_loop :: "py_lib \<Rightarrow> categories \<Rightarrow> df_row list \<Rightarrow> py_error + df_row list" where
  "categorize_loop py [] df = Inr df"
| "categorize_loop py ((cat, keywords) # rest) df =
     (if cat = UNCATEGORIZED_CATEGORY \<or> keywords = [] then categorize_loop py rest df
      else case categorize_rows py cat
                  (map (\<lambda>keyword. strip (str_lower py keyword)) keywords) df of
             Inl e \<Rightarrow> Inl e
           | Inr df' \<Rightarrow> categorize_loop py rest df')"

definition categorize_transactions ::
  "py_lib \<Rightarrow> categories \<Rightarrow> df_row list \<Rightarrow> py_error + df_row list" where
  "categorize_transactions py cats df =
     categorize_loop py cats (map (\<lambda>row. row\<lparr>Category := UNCATEGORIZED_CATEGORY\<rparr>) df)"

text \<open>
  The categories of the registry that match a description, in registry order: those
  other than the sentinel, with a non-empty keyword list, one of whose keywords,
  lowercased and stripped, is a substring of the lowercased, stripped description.
\<close>

definition keyword_matches :: "py_lib \<Rightarrow> ustring \<Rightarrow> ustring list \<Rightarrow> bool" where
  "keyword_matches py description keywords =
     list_ex (\<lambda>keyword. contains (strip (str_lower py description))
                                 (strip (str_lower py keyword))) keywords"

definition matching_categories :: "py_lib \<Rightarrow> categories \<Rightarrow> ustring \<Rightarrow> ustring list" where
  "matching_categories py cats description =
     map fst (filter (\<lambda>(cat, keywords). cat \<noteq> UNCATEGORIZED_CATEGORY \<and> keywords \<noteq> [] \<and>
                                        keyword_matches py description keywords) cats)"

section \<open>main.py: parsing the amount and date columns\<close>

text \<open>
  \<open>float(s)\<close> on a string. A code point above 127 is first replaced: Unicode whitespace
  by a blank, a decimal digit by its ASCII digit, and at anything else the text is cut
  after a \<open>?\<close>, which no numeral contains. Then blanks, tabs, line feeds, vertical tabs,
  form feeds and carriage returns are removed from both ends (the other Unicode
  whitespace below 128 is not). An underscore must stand between two digits and is
  dropped. What is left is an optional sign followed by \<open>nan\<close>, \<open>inf\<close>, \<open>infinity\<close>
  (letters of either case) or by a decimal numeral with optional fraction and exponent;
  the numeral is converted to the nearest binary64 value. Anything else raises
  \<open>ValueError\<close>.
\<close>

fun transform_decimal_and_space :: "py_lib \<Rightarrow> ustring \<Rightarrow> ustring" where
  "transform_decimal_and_space py [] = []"
| "transform_decimal_and_space py (c # cs) =
     (if c \<le> 127 then c # transform_decimal_and_space py cs
      else if isspace c then 32 # transform_decimal_and_space py cs
      else (case unicode_decimal py c of
              Some d \<Rightarrow> (48 + d) # transform_decimal_and_space py cs
            | None \<Rightarrow> [63]))"

definition ascii_isspace :: "nat \<Rightarrow> bool" where
  "ascii_isspace c = (c = 32 \<or> (9 \<le> c \<and> c \<le> 13))"

definition ascii_strip :: "ustring \<Rightarrow> ustring" where
  "ascii_strip s = rev (dropWhile ascii_isspace (rev (dropWhile ascii_isspace s)))"

definition ascii_lower :: "nat \<Rightarrow> nat" where
  "ascii_lower c = (if 65 \<le> c \<and> c \<le> 90 then c + 32 else c)"

fun underscores_ok :: "nat \<Rightarrow> ustring \<Rightarrow> bool" where
  "underscores_ok prev [] = (prev \<noteq> 95)"
| "underscores_ok prev (c # cs) =
     ((if c = 95 then is_digit prev else (prev \<noteq> 95 \<or> is_digit c)) \<and>
      underscores_ok c cs)"

definition split_sign :: "ustring \<Rightarrow> bool \<times> ustring" where
  "split_sign s =
     (case s of
        [] \<Rightarrow> (False, [])
      | c # r \<Rightarrow> if c = 45 then (True, r) else if c = 43 then (False, r) else (False, s))"

definition parse_exponent :: "ustring \<Rightarrow> int option" where
  "parse_exponent s =
     (let (neg, ds) = split_sign s
      in if ds \<noteq> [] \<and> list_all is_digit ds
         then Some (if neg then - int (digits_val ds) else int (digits_val ds))
         else None)"

definition parse_decimal :: "ustring \<Rightarrow> rat option" where
  "parse_decimal s =
     (let ip = takeWhile is_digit s;
          r1 = dropWhile is_digit s;
          has_point = (r1 \<noteq> [] \<and> hd r1 = 46);
          fp = (if has_point then takeWhile is_digit (tl r1) else []);
          r2 = (if has_point then dropWhile is_digit (tl r1) else r1);
          mantissa = of_nat (digits_val ip) + of_nat (digits_val fp) / 10 ^ length fp
      in if ip = [] \<and> fp = [] then None
         else if r2 = [] then Some mantissa
         else if hd r2 = 101 \<or> hd r2 = 69
         then (case parse_exponent (tl r2) of
                 None \<Rightarrow> None
               | Some e \<Rightarrow> Some (if 0 \<le> e then mantissa * 10 ^ nat e else mantissa / 10 ^ nat (- e)))
         else None)"

definition py_float :: "py_lib \<Rightarrow> ustring \<Rightarrow> py_error + pyfloat" where
  "py_float py s =
     (let t = ascii_strip (transform_decimal_and_space py s)
      in if \<not> underscores_ok 0 t then Inl ValueError
         else
           (let (neg, body) = split_sign (filter (\<lambda>c. c \<noteq> 95) t)
            in if map ascii_lower body = ustr ''nan'' then Inr NaN
               else if map ascii_lower body = ustr ''inf'' \<or>
                       map ascii_lower body = ustr ''infinity''
               then Inr (if neg then NegInf else PosInf)
               else (case parse_decimal body of
                       None \<Rightarrow> Inl ValueError
                     | Some q \<Rightarrow> Inr (binary64 (if neg then - q else q)))))"

text \<open>The euro sign, U+20AC.\<close>

definition euro :: ustring where
  "euro = [0x20AC]"

text \<open>
  Line 95 on one cell: \<open>.str.replace('.', '').str.replace(',', '.').str.replace('\<euro>', '')\<close>
  and the conversion of \<open>astype(float)\<close>. The string methods pass a missing cell on, and
  the conversion reads it as NaN.
\<close>

definition clean_importe :: "ustring \<Rightarrow> ustring" where
  "clean_importe s =
     replace_str euro [] (replace_str (ustr '','') (ustr ''.'') (replace_str (ustr ''.'') [] s))"

definition parse_importe :: "py_lib \<Rightarrow> ustring option \<Rightarrow> py_error + pyfloat" where
  "parse_importe py cell =
     (case cell of None \<Rightarrow> Inr NaN | Some s \<Rightarrow> py_float py (clean_importe s))"

text \<open>\<open>astype(float)\<close> converts the whole column or raises at the first cell that fails.\<close>

fun astype_float :: "py_lib \<Rightarrow> ustring option list \<Rightarrow> py_error + pyfloat list" where
  "astype_float py [] = Inr []"
| "astype_float py (cell # cells) =
     (case parse_importe py cell of
        Inl e \<Rightarrow> Inl e
      | Inr x \<Rightarrow> (case astype_float py cells of Inl e \<Rightarrow> Inl e | Inr xs \<Rightarrow> Inr (x # xs)))"

text \<open>Line 98: \<open>lambda x: 'Debit' if x < 0 else 'Credit'\<close>.\<close>

definition tipo_of :: "pyfloat \<Rightarrow> ustring" where
  "tipo_of x = (if lt_zero x then ustr ''Debit'' else ustr ''Credit'')"

text \<open>
  \<open>pd.to_datetime(df['Fecha valor'], format='%d/%m/%Y')\<close> converts the whole column or
  raises at the first cell that fails. A missing cell becomes \<open>NaT\<close>.
\<close>

fun to_datetime :: "py_lib \<Rightarrow> ustring option list \<Rightarrow> py_error + date option list" where
  "to_datetime py [] = Inr []"
| "to_datetime py (None # cells) =
     (case to_datetime py cells of Inl e \<Rightarrow> Inl e | Inr ds \<Rightarrow> Inr (None # ds))"
| "to_datetime py (Some s # cells) =
     (case to_datetime_dmY py s of
        Inl e \<Rightarrow> Inl e
      | Inr d \<Rightarrow> (case to_datetime py cells of Inl e \<Rightarrow> Inl e | Inr ds \<Rightarrow> Inr (d # ds)))"

section \<open>main.py: load\_transactions\<close>

text \<open>
  The table read from the CSV file, after the column names are stripped and \<open>Saldo\<close> is
  dropped: one text cell per column, \<open>None\<close> for an empty cell. Reading the file and the
  column types pandas infers are outside the model; the three columns are text columns.
\<close>

record csv_row =
  csv_Fecha_valor :: "ustring option"
  csv_Concepto :: "ustring option"
  csv_Importe :: "ustring option"

text \<open>
  The result of \<open>load_transactions\<close>: the database afterwards, the counts shown to the
  user if the insert was reached and returned, and the returned DataFrame or the
  exception that the outer handler turns into \<open>None\<close>. What is not the transactions
  table (session state, the categories table, the widgets) is left out. The loop that
  prints the uncategorised rows calls \<open>strftime\<close> on every such row and raises
  \<open>ValueError\<close> on \<open>NaT\<close>, after the insert has been committed.
\<close>

definition load_transactions ::
  "py_lib \<Rightarrow> nat \<Rightarrow> categories \<Rightarrow> database \<Rightarrow> csv_row list
     \<Rightarrow> database \<times> (nat \<times> nat) option \<times> (py_error + df_row list)" where
  "load_transactions py now cats db csv =
     (case astype_float py (map csv_Importe csv) of
        Inl e \<Rightarrow> (db, None, Inl e)
      | Inr importes \<Rightarrow>
          (case to_datetime py (map csv_Fecha_valor csv) of
             Inl e \<Rightarrow> (db, None, Inl e)
           | Inr fechas \<Rightarrow>
               (let df = map (\<lambda>(row, x, d).
                                \<lparr>Fecha_valor = d, Concepto = csv_Concepto row, Importe = pyabs x,
                                 Tipo = tipo_of x, Category = []\<rparr>)
                             (zip csv (zip importes fechas))
                in case categorize_transactions py cats df of
                     Inl e \<Rightarrow> (db, None, Inl e)
                   | Inr df' \<Rightarrow>
                       (case insert_transactions py now db df' of
                          Inl e \<Rightarrow> (db, None, Inl e)
                        | Inr (db', new_count, duplicate_count) \<Rightarrow>
                            if list_ex (\<lambda>row. Category row = UNCATEGORIZED_CATEGORY \<and>
                                               Fecha_valor row = None) df'
                            then (db', Some (new_count, duplicate_count), Inl ValueError)
                            else (db', Some (new_count, duplicate_count), Inr df')))))"

text \<open>\<open>add_duplicates j\<close> raises the duplicate count of a result by \<open>j\<close>.\<close>

definition add_duplicates ::
  "nat \<Rightarrow> py_error + (database \<times> nat \<times> nat) \<Rightarrow> py_error + (database \<times> nat \<times> nat)" where
  "add_duplicates j res =
     (case res of Inl e \<Rightarrow> Inl e | Inr (db', n', k') \<Rightarrow> Inr (db', n', k' + j))"

section \<open>An instance of the library on ASCII text\<close>

text \<open>
  To run the model on concrete inputs the library functions are instantiated by
  \<open>py_ascii\<close>. On text of code points below 128 its \<open>encode_utf8\<close> and \<open>str_lower\<close> are the
  functions of Python, and \<open>unicode_decimal\<close> is never consulted. Its \<open>to_datetime_dmY\<close>
  follows pandas on such text: empty text and the spellings of NaT and NaN give \<open>NaT\<close>;
  the day is \<open>01\<close> to \<open>31\<close>, or one digit \<open>1\<close> to \<open>9\<close> with an optional blank before it;
  the month is \<open>01\<close> to \<open>12\<close> or one digit; the year is four digits; the whole text must
  match; the date must exist and lie in the range of a nanosecond Timestamp, 1677-09-22
  to 2262-04-11. In place of SHA-256 it has the identity, an injective function: the
  evaluated examples depend on the digest only through equality of digests.
\<close>

definition day_field :: "ustring \<Rightarrow> bool" where
  "day_field s =
     (case s of
        [a] \<Rightarrow> is_digit a \<and> a \<noteq> 48
      | [a, b] \<Rightarrow> (a = 32 \<and> is_digit b \<and> b \<noteq> 48) \<or>
                  (is_digit a \<and> is_digit b \<and> 1 \<le> digits_val [a, b] \<and> digits_val [a, b] \<le> 31)
      | _ \<Rightarrow> False)"

definition month_field :: "ustring \<Rightarrow> bool" where
  "month_field s =
     (case s of
        [a] \<Rightarrow> is_digit a \<and> a \<noteq> 48
      | [a, b] \<Rightarrow> is_digit a \<and> is_digit b \<and> 1 \<le> digits_val [a, b] \<and> digits_val [a, b] \<le> 12
      | _ \<Rightarrow> False)"

definition year_field :: "ustring \<Rightarrow> bool" where
  "year_field s = (length s = 4 \<and> list_all is_digit s)"

definition is_leap :: "nat \<Rightarrow> bool" where
  "is_leap y = (y mod 4 = 0 \<and> (y mod 100 \<noteq> 0 \<or> y mod 400 = 0))"

definition days_in_month :: "nat \<Rightarrow> nat \<Rightarrow> nat" where
  "days_in_month y m =
     (if m = 2 then (if is_leap y then 29 else 28)
      else if m = 4 \<or> m = 6 \<or> m = 9 \<or> m = 11 then 30 else 31)"

definition date_le :: "date \<Rightarrow> date \<Rightarrow> bool" where
  "date_le a b =
     (year a < year b \<or>
      (year a = year b \<and> (month a < month b \<or> (month a = month b \<and> day a \<le> day b))))"

definition in_timestamp_range :: "date \<Rightarrow> bool" where
  "in_timestamp_range d =
     (date_le \<lparr>year = 1677, month = 9, day = 22\<rparr> d \<and>
      date_le d \<lparr>year = 2262, month = 4, day = 11\<rparr>)"

definition strptime_dmY :: "ustring \<Rightarrow> py_error + date option" where
  "strptime_dmY s =
     (let ds = takeWhile (\<lambda>c. c \<noteq> 47) s;
          r = drop (Suc (length ds)) s;
          ms = takeWhile (\<lambda>c. c \<noteq> 47) r;
          ys = drop (Suc (length ms)) r;
          d = \<lparr>year = digits_val ys, month = digits_val ms,
               day = digits_val (filter is_digit ds)\<rparr>
      in if s \<in> set (map ustr ['''', ''NaT'', ''nat'', ''NAT'', ''nan'', ''NaN'', ''NAN''])
         then Inr None
         else if day_field ds \<and> month_field ms \<and> year_field ys \<and>
                 day d \<le> days_in_month (year d) (month d) \<and> in_timestamp_range d
         then Inr (Some d) else Inl ValueError)"

definition py_ascii :: py_lib where
  "py_ascii =
     \<lparr>sha256 = (\<lambda>b. b), encode_utf8 = map char_of, str_lower = map ascii_lower,
      unicode_decimal = (\<lambda>c. None), to_datetime_dmY = strptime_dmY\<rparr>"

section \<open>Decimal numerals and separators\<close>

lemma ustr_Nil [simp]: "ustr [] = []"
  by (simp add: ustr_def)

lemma ustr_Cons [simp]: "ustr (c # cs) = of_char c # ustr cs"
  by (simp add: ustr_def)

















lemma digit_char_0: "digit_char 0 = 48"
  by (simp add: digit_char_def)

lemma zfill2_str_nat:
  "k < 100 \<Longrightarrow> zfill 2 (str_nat k) = [digit_char (k div 10), digit_char (k mod 10)]"
proof (cases "k < 10")
  case True
  then show ?thesis
    by (subst str_nat.simps) (simp add: zfill_def digit_char_0)
next
  case False
  assume "k < 100"
  then have "k div 10 < 10"
    by arith
  then have "str_nat (k div 10) = [digit_char (k div 10)]"
    by (subst str_nat.simps) simp
  moreover from False have "str_nat k = str_nat (k div 10) @ [digit_char (k mod 10)]"
    by (subst str_nat.simps) simp
  ultimately have "str_nat k = [digit_char (k div 10), digit_char (k mod 10)]"
    by simp
  then show ?thesis
    by (simp add: zfill_def)
qed









lemma str_nat_1: "n < 10 \<Longrightarrow> str_nat n = [digit_char n]"
  by (subst str_nat.simps) simp

lemma str_nat_step: "10 \<le> n \<Longrightarrow> str_nat n = str_nat (n div 10) @ [digit_char (n mod 10)]"
  by (subst str_nat.simps) simp

lemma replicate_small:
  "replicate 3 x = [x, x, x]" "replicate 2 x = [x, x]"
  by (simp_all add: numeral_3_eq_3 numeral_2_eq_2)

lemma zfill4_str_nat:
  assumes "y < 10000"
  shows "zfill 4 (str_nat y) =
     [digit_char (y div 1000), digit_char (y div 100 mod 10), digit_char (y div 10 mod 10),
      digit_char (y mod 10)]"
proof -
  consider "y < 10" | "10 \<le> y" "y < 100" | "100 \<le> y" "y < 1000" | "1000 \<le> y"
    by linarith
  then show ?thesis
  proof cases
    case 1
    then show ?thesis
      by (simp add: str_nat_1 zfill_def digit_char_def replicate_small)
  next
    case 2
    then have "y div 10 < 10" by simp
    with 2 show ?thesis
      by (simp add: str_nat_step str_nat_1 zfill_def digit_char_def replicate_small)
  next
    case 3
    then have a: "10 \<le> y div 10" "y div 10 div 10 < 10" "10 \<le> y" by simp_all
    have "y div 10 div 10 = y div 100" by (simp add: div_mult2_eq)
    with 3 a show ?thesis
      by (simp add: str_nat_step str_nat_1 zfill_def digit_char_def replicate_small)
  next
    case 4
    with assms have a: "10 \<le> y" "10 \<le> y div 10" "10 \<le> y div 10 div 10" "y div 10 div 10 div 10 < 10"
      by simp_all
    have b: "y div 10 div 10 = y div 100" "y div 100 div 10 = y div 1000"
      by (simp_all add: div_mult2_eq)
    from a have "zfill 4 (str_nat y) =
       [digit_char (y div 10 div 10 div 10), digit_char (y div 10 div 10 mod 10),
        digit_char (y div 10 mod 10), digit_char (y mod 10)]"
      by (simp add: str_nat_step str_nat_1 zfill_def)
    then show ?thesis
      by (simp only: b)
  qed
qed

lemma strftime_Ymd_digits:
  assumes "year d < 10000" "month d < 100" "day d < 100"
  shows "strftime_Ymd d =
     [digit_char (year d div 1000), digit_char (year d div 100 mod 10),
      digit_char (year d div 10 mod 10), digit_char (year d mod 10), 45,
      digit_char (month d div 10), digit_char (month d mod 10), 45,
      digit_char (day d div 10), digit_char (day d mod 10)]"
  using assms by (simp add: strftime_Ymd_def zfill4_str_nat zfill2_str_nat)

section \<open>Properties of INSERT OR IGNORE and of the insert loop\<close>

lemma insert_or_ignore_ignored:
  "imp = NaN \<or> h \<in> set (map transaction_hash (transactions db)) \<Longrightarrow>
   insert_or_ignore now db h fv c imp t cat = (db\<lparr>sqlite_sequence := next_rowid db\<rparr>, 0)"
  by (auto simp: insert_or_ignore_def)

lemma insert_or_ignore_fresh:
  assumes "h \<notin> set (map transaction_hash (transactions db))" "imp \<noteq> NaN"
  shows "\<exists>r. insert_or_ignore now db h fv c imp t cat =
           (\<lparr>transactions = transactions db @ [r], sqlite_sequence = next_rowid db\<rparr>, 1)
         \<and> transaction_hash r = h"
  using assms by (simp add: insert_or_ignore_def)

lemma insert_or_ignore_cases:
  obtains (ignored)
      "insert_or_ignore now db h fv c imp t cat = (db\<lparr>sqlite_sequence := next_rowid db\<rparr>, 0)"
  | (inserted) r where
      "insert_or_ignore now db h fv c imp t cat =
         (\<lparr>transactions = transactions db @ [r], sqlite_sequence = next_rowid db\<rparr>, 1)"
      "transaction_hash r = h" "h \<notin> set (map transaction_hash (transactions db))"
  by (cases "imp = NaN \<or> h \<in> set (map transaction_hash (transactions db))")
     (auto simp: insert_or_ignore_def)

lemma try_insert_Inl_iff:
  "(\<exists>e. try_insert py now db row = Inl e) \<longleftrightarrow> Fecha_valor row = None \<or> Concepto row = None"
  by (auto simp: try_insert_def row_transaction_hash_def split: option.splits sum.splits)

lemma try_insert_Inr:
  assumes "try_insert py now db row = Inr (db', rc)"
  obtains d c where "Fecha_valor row = Some d" "Concepto row = Some c"
    "insert_or_ignore now db (generate_transaction_hash py (strftime_Ymd d) c (Importe row))
       (strftime_Ymd d) c (Importe row) (Tipo row) (Category row) = (db', rc)"
    "row_transaction_hash py row =
       Inr (generate_transaction_hash py (strftime_Ymd d) c (Importe row))"
  using assms
  by (auto simp: try_insert_def row_transaction_hash_def split: option.splits sum.splits)

lemma try_insert_step:
  assumes "try_insert py now db row = Inr (db', rc)"
  shows "(rc = 0 \<and> transactions db' = transactions db) \<or>
         (rc = 1 \<and> (\<exists>r. transactions db' = transactions db @ [r] \<and>
                         row_transaction_hash py row = Inr (transaction_hash r) \<and>
                         transaction_hash r \<notin> set (map transaction_hash (transactions db))))"
proof -
  from assms obtain d c where
    ins: "insert_or_ignore now db (generate_transaction_hash py (strftime_Ymd d) c (Importe row))
       (strftime_Ymd d) c (Importe row) (Tipo row) (Category row) = (db', rc)"
    and h: "row_transaction_hash py row =
       Inr (generate_transaction_hash py (strftime_Ymd d) c (Importe row))"
    by (rule try_insert_Inr)
  show ?thesis
    using ins h
    by (cases rule: insert_or_ignore_cases
          [of now db "generate_transaction_hash py (strftime_Ymd d) c (Importe row)"
              "strftime_Ymd d" c "Importe row" "Tipo row" "Category row"])
       auto
qed

text \<open>What a returning loop has done: every row counted once, rows only appended.\<close>

lemma insert_loop_returns:
  assumes "insert_loop py now db n k rows = Inr (db', n', k')"
  shows "n' + k' = n + k + length rows \<and> n \<le> n' \<and> k \<le> k' \<and>
         (\<exists>new. transactions db' = transactions db @ new \<and> length new = n' - n \<and>
                 (hash_unique db \<longrightarrow> hash_unique db'))"
  using assms
proof (induction rows arbitrary: db n k)
  case Nil
  then show ?case by simp
next
  case (Cons row rows)
  show ?case
  proof (cases "try_insert py now db row")
    case (Inl e)
    with Cons.prems obtain c where "Concepto row = Some c"
      and "insert_loop py now db n (k + 1) rows = Inr (db', n', k')"
      by (auto split: option.splits)
    from Cons.IH [OF this(2)] show ?thesis
      by auto
  next
    case (Inr p)
    obtain db1 rc where p: "p = (db1, rc)"
      by (cases p)
    from try_insert_step [OF Inr [unfolded p]]
    consider (ign) "rc = 0" "transactions db1 = transactions db"
      | (ins) r where "rc = 1" "transactions db1 = transactions db @ [r]"
          "transaction_hash r \<notin> set (map transaction_hash (transactions db))"
      by blast
    then show ?thesis
    proof cases
      case ign
      with Cons.prems Inr p have "insert_loop py now db1 n (k + 1) rows = Inr (db', n', k')"
        by simp
      from Cons.IH [OF this] ign(2) show ?thesis
        by (auto simp: hash_unique_def)
    next
      case ins
      with Cons.prems Inr p have "insert_loop py now db1 (n + 1) k rows = Inr (db', n', k')"
        by simp
      from Cons.IH [OF this] obtain new where
        a: "n' + k' = n + 1 + k + length rows" "n + 1 \<le> n'" "k \<le> k'"
        and b: "transactions db' = transactions db1 @ new" "length new = n' - (n + 1)"
        and c: "hash_unique db1 \<longrightarrow> hash_unique db'"
        by blast
      have "hash_unique db \<longrightarrow> hash_unique db1"
        using ins by (simp add: hash_unique_def)
      with c have "hash_unique db \<longrightarrow> hash_unique db'"
        by blast
      moreover from b ins have "transactions db' = transactions db @ (r # new)"
        by simp
      moreover from a b have "length (r # new) = n' - n"
        by simp
      ultimately show ?thesis
        using a by (intro conjI exI [of _ "r # new"]) simp_all
    qed
  qed
qed

text \<open>The loop returns exactly when every description cell is a string.\<close>

lemma insert_loop_total:
  assumes "\<forall>row \<in> set rows. Concepto row \<noteq> None"
  shows "\<exists>res. insert_loop py now db n k rows = Inr res"
  using assms
proof (induction rows arbitrary: db n k)
  case Nil
  then show ?case by simp
next
  case (Cons row rows)
  then obtain c where c: "Concepto row = Some c"
    by auto
  from Cons have IH: "\<And>db n k. \<exists>res. insert_loop py now db n k rows = Inr res"
    by simp
  show ?case
  proof (cases "try_insert py now db row")
    case (Inl e)
    with c IH [of db n "k + 1"] show ?thesis
      by simp
  next
    case (Inr p)
    obtain db1 rc where "p = (db1, rc)"
      by (cases p)
    with Inr IH [of db1 "n + 1" k] IH [of db1 n "k + 1"] show ?thesis
      by simp
  qed
qed

lemma insert_loop_raises:
  assumes "row \<in> set rows" "Concepto row = None"
  shows "insert_loop py now db n k rows = Inl TypeError"
  using assms
proof (induction rows arbitrary: db n k)
  case Nil
  then show ?case by simp
next
  case (Cons r rows)
  show ?case
  proof (cases "Concepto r")
    case None
    then have "\<exists>e. try_insert py now db r = Inl e"
      by (simp add: try_insert_Inl_iff)
    with None show ?thesis
      by auto
  next
    case (Some c)
    with Cons.prems have "row \<in> set rows"
      by auto
    from Cons.IH [OF this Cons.prems(2)]
    have IH: "\<And>db n k. insert_loop py now db n k rows = Inl TypeError" .
    show ?thesis
    proof (cases "try_insert py now db r")
      case (Inl e)
      with Some IH show ?thesis by simp
    next
      case (Inr p)
      with IH show ?thesis
        by (cases p) simp
    qed
  qed
qed

text \<open>
  A row whose hash is stored, or whose amount is NaN, only advances the duplicate counter
  and the AUTOINCREMENT counter.
\<close>

lemma insert_loop_ignored:
  assumes "Fecha_valor row = Some d" "Concepto row = Some c"
    and "Importe row = NaN \<or>
         generate_transaction_hash py (strftime_Ymd d) c (Importe row)
           \<in> set (map transaction_hash (transactions db))"
  shows "insert_loop py now db n k (row # rows) =
         insert_loop py now (db\<lparr>sqlite_sequence := next_rowid db\<rparr>) n (Suc k) rows"
proof -
  let ?h = "generate_transaction_hash py (strftime_Ymd d) c (Importe row)"
  have h: "row_transaction_hash py row = Inr ?h"
    using assms(1,2) by (simp add: row_transaction_hash_def)
  have "insert_or_ignore now db ?h (strftime_Ymd d) c (Importe row) (Tipo row) (Category row)
          = (db\<lparr>sqlite_sequence := next_rowid db\<rparr>, 0)"
    using assms(3) by (rule insert_or_ignore_ignored)
  then have "try_insert py now db row = Inr (db\<lparr>sqlite_sequence := next_rowid db\<rparr>, 0)"
    using assms(1,2) h by (simp add: try_insert_def)
  then show ?thesis
    by simp
qed

text \<open>A row that cannot be inserted only advances the duplicate counter.\<close>

lemma insert_loop_skip:
  assumes "Concepto row \<noteq> None"
    and "Fecha_valor row = None \<or> Importe row = NaN \<or>
         (\<exists>h. row_transaction_hash py row = Inr h \<and>
              h \<in> set (map transaction_hash (transactions db)))"
  shows "\<exists>db1. transactions db1 = transactions db \<and>
           insert_loop py now db n k (row # rows) = insert_loop py now db1 n (Suc k) rows"
proof (cases "Fecha_valor row")
  case None
  then have "try_insert py now db row = Inl ValueError"
    by (simp add: try_insert_def row_transaction_hash_def)
  with assms(1) have "insert_loop py now db n k (row # rows) = insert_loop py now db n (Suc k) rows"
    by auto
  then show ?thesis
    by blast
next
  case (Some d)
  from assms(1) obtain c where c: "Concepto row = Some c"
    by auto
  let ?h = "generate_transaction_hash py (strftime_Ymd d) c (Importe row)"
  have h: "row_transaction_hash py row = Inr ?h"
    using Some c by (simp add: row_transaction_hash_def)
  from assms(2) Some h have "Importe row = NaN \<or> ?h \<in> set (map transaction_hash (transactions db))"
    by auto
  from insert_loop_ignored [OF Some c this, of now n k rows] show ?thesis
    by (intro exI [of _ "db\<lparr>sqlite_sequence := next_rowid db\<rparr>"]) simp
qed

lemma insert_loop_all_skipped:
  assumes "\<forall>row \<in> set rows. Concepto row \<noteq> None \<and>
             (Fecha_valor row = None \<or> Importe row = NaN \<or>
              (\<exists>h. row_transaction_hash py row = Inr h \<and>
                   h \<in> set (map transaction_hash (transactions db))))"
  shows "\<exists>db'. insert_loop py now db n k rows = Inr (db', n, k + length rows) \<and>
               transactions db' = transactions db"
  using assms
proof (induction rows arbitrary: db k)
  case Nil
  then show ?case by simp
next
  case (Cons row rows)
  then obtain db1 where db1: "transactions db1 = transactions db"
    and step: "insert_loop py now db n k (row # rows) = insert_loop py now db1 n (Suc k) rows"
    using insert_loop_skip [of row py db now n k rows] by auto
  from Cons.prems db1 have "\<forall>row \<in> set rows. Concepto row \<noteq> None \<and>
             (Fecha_valor row = None \<or> Importe row = NaN \<or>
              (\<exists>h. row_transaction_hash py row = Inr h \<and>
                   h \<in> set (map transaction_hash (transactions db1))))"
    by simp
  from Cons.IH [OF this, of "Suc k"] obtain db' where
    "insert_loop py now db1 n (Suc k) rows = Inr (db', n, Suc k + length rows)"
    "transactions db' = transactions db1"
    by blast
  with step db1 show ?case
    by simp
qed

text \<open>A well-formed row with a fresh hash is written.\<close>

lemma insert_loop_fresh:
  assumes "well_formed row" "row_transaction_hash py row = Inr h"
    "h \<notin> set (map transaction_hash (transactions db))"
  shows "\<exists>r. transaction_hash r = h \<and>
           insert_loop py now db n k (row # rows) =
           insert_loop py now
             \<lparr>transactions = transactions db @ [r], sqlite_sequence = next_rowid db\<rparr>
             (Suc n) k rows"
proof -
  from assms(1) obtain d c where dc: "Fecha_valor row = Some d" "Concepto row = Some c"
    and imp: "Importe row \<noteq> NaN"
    by (auto simp: well_formed_def)
  with assms(2) have h: "h = generate_transaction_hash py (strftime_Ymd d) c (Importe row)"
    by (simp add: row_transaction_hash_def)
  from insert_or_ignore_fresh [OF assms(3) imp, of now "strftime_Ymd d" c "Tipo row" "Category row"]
  obtain r where r: "insert_or_ignore now db h (strftime_Ymd d) c (Importe row) (Tipo row) (Category row) =
           (\<lparr>transactions = transactions db @ [r], sqlite_sequence = next_rowid db\<rparr>, 1)"
    "transaction_hash r = h"
    by blast
  then have "try_insert py now db row =
      Inr (\<lparr>transactions = transactions db @ [r], sqlite_sequence = next_rowid db\<rparr>, 1)"
    using dc h assms(2) by (simp add: try_insert_def)
  with r(2) show ?thesis
    by auto
qed

lemma insert_loop_all_fresh:
  assumes "\<forall>row \<in> set rows. well_formed row"
    and "distinct (map (row_transaction_hash py) rows)"
    and "\<forall>row \<in> set rows. \<forall>h. row_transaction_hash py row = Inr h \<longrightarrow>
           h \<notin> set (map transaction_hash (transactions db))"
  shows "\<exists>db'. insert_loop py now db n k rows = Inr (db', n + length rows, k) \<and>
           Inr ` set (map transaction_hash (transactions db')) =
             Inr ` set (map transaction_hash (transactions db)) \<union> set (map (row_transaction_hash py) rows)"
  using assms
proof (induction rows arbitrary: db n)
  case Nil
  then show ?case by simp
next
  case (Cons row rows)
  from Cons.prems(1) have wf: "well_formed row"
    by simp
  then obtain h where h: "row_transaction_hash py row = Inr h"
    by (auto simp: well_formed_def row_transaction_hash_def)
  with Cons.prems(3) have fresh: "h \<notin> set (map transaction_hash (transactions db))"
    by simp
  from insert_loop_fresh [OF wf h fresh, of now n k rows] obtain r where
    r: "transaction_hash r = h"
    and step: "insert_loop py now db n k (row # rows) =
           insert_loop py now
             \<lparr>transactions = transactions db @ [r], sqlite_sequence = next_rowid db\<rparr>
             (Suc n) k rows"
    by blast
  let ?db1 = "\<lparr>transactions = transactions db @ [r], sqlite_sequence = next_rowid db\<rparr>"
  have "\<forall>row' \<in> set rows. \<forall>h'. row_transaction_hash py row' = Inr h' \<longrightarrow>
           h' \<notin> set (map transaction_hash (transactions ?db1))"
  proof (intro ballI allI impI)
    fix row' h'
    assume in_rows: "row' \<in> set rows" and h': "row_transaction_hash py row' = Inr h'"
    with Cons.prems(3) have "h' \<notin> set (map transaction_hash (transactions db))"
      by simp
    moreover from Cons.prems(2) in_rows have "row_transaction_hash py row' \<noteq> row_transaction_hash py row"
      by (metis distinct.simps(2) image_eqI list.simps(9) set_map)
    with h h' have "h' \<noteq> h"
      by auto
    ultimately show "h' \<notin> set (map transaction_hash (transactions ?db1))"
      using r by simp
  qed
  with Cons.IH [of ?db1 "Suc n"] Cons.prems(1,2) obtain db' where
    res: "insert_loop py now ?db1 (Suc n) k rows = Inr (db', Suc n + length rows, k)"
    and hs: "Inr ` set (map transaction_hash (transactions db')) =
             Inr ` set (map transaction_hash (transactions ?db1)) \<union> set (map (row_transaction_hash py) rows)"
    by auto
  from step res have "insert_loop py now db n k (row # rows) = Inr (db', n + length (row # rows), k)"
    by simp
  moreover from hs r h have "Inr ` set (map transaction_hash (transactions db')) =
             Inr ` set (map transaction_hash (transactions db)) \<union>
             set (map (row_transaction_hash py) (row # rows))"
    by auto
  ultimately show ?case
    by blast
qed

lemma transaction_exists_iff:
  "transaction_exists db h \<longleftrightarrow> h \<in> set (map transaction_hash (transactions db))"
  by (auto simp: transaction_exists_def filter_empty_conv)

text \<open>After a returning loop every row of the batch is one that a further insert skips.\<close>

lemma insert_loop_seen:
  assumes "insert_loop py now db n k rows = Inr (db', n', k')"
  shows "\<forall>row \<in> set rows. Concepto row \<noteq> None \<and>
           (Fecha_valor row = None \<or> Importe row = NaN \<or>
            (\<exists>h. row_transaction_hash py row = Inr h \<and>
                 h \<in> set (map transaction_hash (transactions db'))))"
  using assms
proof (induction rows arbitrary: db n k)
  case Nil
  then show ?case by simp
next
  case (Cons row rows)
  have c: "Concepto row \<noteq> None"
  proof
    assume "Concepto row = None"
    then have "insert_loop py now db n k (row # rows) = Inl TypeError"
      by (intro insert_loop_raises [of row]) simp_all
    with Cons.prems show False by simp
  qed
  show ?case
  proof (cases "try_insert py now db row")
    case (Inl e)
    then have "Fecha_valor row = None"
      using c try_insert_Inl_iff [of py now db row] by auto
    moreover from Inl c Cons.prems have "insert_loop py now db n (k + 1) rows = Inr (db', n', k')"
      by auto
    ultimately show ?thesis
      using c Cons.IH by auto
  next
    case (Inr p)
    obtain db1 rc where p: "p = (db1, rc)"
      by (cases p)
    from Inr p Cons.prems obtain n1 k1 where
      rest: "insert_loop py now db1 n1 k1 rows = Inr (db', n', k')"
      by (cases "0 < rc") auto
    from insert_loop_returns [OF rest] obtain new where
      new: "transactions db' = transactions db1 @ new"
      by blast
    from Inr p obtain d c' where dc: "Fecha_valor row = Some d" "Concepto row = Some c'"
      and ins: "insert_or_ignore now db (generate_transaction_hash py (strftime_Ymd d) c' (Importe row))
         (strftime_Ymd d) c' (Importe row) (Tipo row) (Category row) = (db1, rc)"
      and h: "row_transaction_hash py row =
         Inr (generate_transaction_hash py (strftime_Ymd d) c' (Importe row))"
      by (auto elim: try_insert_Inr)
    let ?h = "generate_transaction_hash py (strftime_Ymd d) c' (Importe row)"
    have "Importe row = NaN \<or> ?h \<in> set (map transaction_hash (transactions db1))"
      using ins by (auto simp: insert_or_ignore_def split: if_splits)
    with new h have "Importe row = NaN \<or>
        (\<exists>h. row_transaction_hash py row = Inr h \<and>
             h \<in> set (map transaction_hash (transactions db')))"
      by auto
    with c Cons.IH [OF rest] show ?thesis
      by simp
  qed
qed

lemma insert_transactions_again:
  assumes "insert_transactions py t1 db df = Inr (db', n, k)"
  shows "\<exists>db''. insert_transactions py t2 db' df = Inr (db'', 0, length df) \<and>
                transactions db'' = transactions db'"
proof -
  from assms have "insert_loop py t1 db 0 0 df = Inr (db', n, k)"
    by (simp add: insert_transactions_def)
  from insert_loop_all_skipped [OF insert_loop_seen [OF this], of t2 0 0] show ?thesis
    by (simp add: insert_transactions_def)
qed

lemma insert_transactions_accounts:
  assumes "\<forall>row \<in> set df. Concepto row \<noteq> None"
  shows "\<exists>db' n k. insert_transactions py now db df = Inr (db', n, k) \<and>
           n + k = length df \<and>
           length (transactions db') = length (transactions db) + n"
proof -
  from insert_loop_total [OF assms, of py now db 0 0] obtain db' n k where
    r: "insert_loop py now db 0 0 df = Inr (db', n, k)"
    by (metis prod_cases3)
  from insert_loop_returns [OF r] have "n + k = length df"
    and "length (transactions db') = length (transactions db) + n"
    by auto
  with r show ?thesis
    by (auto simp: insert_transactions_def)
qed

text \<open>A row whose hash is stored is counted as skipped wherever it stands in the batch.\<close>

lemma insert_loop_counts_existing:
  assumes "insert_loop py now db n k rows = Inr (db', n', k')"
    and "row \<in> set rows" "row_transaction_hash py row = Inr h"
    and "h \<in> set (map transaction_hash (transactions db))"
  shows "k < k'"
  using assms
proof (induction rows arbitrary: db n k)
  case Nil
  then show ?case by simp
next
  case (Cons r rows)
  show ?case
  proof (cases "r = row")
    case True
    from Cons.prems(3) have "Concepto row \<noteq> None"
      by (auto simp: row_transaction_hash_def split: option.splits)
    with Cons.prems(3,4) obtain db1 where
      "insert_loop py now db n k (row # rows) = insert_loop py now db1 n (Suc k) rows"
      using insert_loop_skip [of row py db now n k rows] by auto
    with True Cons.prems(1) have "insert_loop py now db1 n (Suc k) rows = Inr (db', n', k')"
      by simp
    from insert_loop_returns [OF this] show ?thesis
      by simp
  next
    case False
    with Cons.prems(2) have in_rows: "row \<in> set rows"
      by simp
    show ?thesis
    proof (cases "try_insert py now db r")
      case (Inl e)
      with Cons.prems(1) have "insert_loop py now db n (k + 1) rows = Inr (db', n', k')"
        by (auto split: option.splits)
      from Cons.IH [OF this in_rows Cons.prems(3,4)] show ?thesis
        by simp
    next
      case (Inr p)
      obtain db1 rc where p: "p = (db1, rc)"
        by (cases p)
      from try_insert_step [OF Inr [unfolded p]]
      have sub: "h \<in> set (map transaction_hash (transactions db1))"
        using Cons.prems(4) by auto
      from Inr p Cons.prems(1) obtain n1 k1 where
        rest: "insert_loop py now db1 n1 k1 rows = Inr (db', n', k')" and "k \<le> k1"
        by (cases "0 < rc") auto
      from Cons.IH [OF rest in_rows Cons.prems(3) sub] \<open>k \<le> k1\<close> show ?thesis
        by simp
    qed
  qed
qed


text \<open>The equations that evaluate the content hash and the insert on concrete rows.\<close>

lemmas hash_eval =
  row_transaction_hash_def generate_transaction_hash_def py_ascii_def strftime_Ymd_digits
  strip_def lstrip_def rstrip_def isspace_def cents_def round_half_even_def Let_def
  str_nat_1 str_nat_step zfill_def digit_char_def
  hexdigest_def hex_byte_def hex_digit_def

lemmas insert_eval =
  insert_transactions_def try_insert_def insert_or_ignore_def next_rowid_def init_database_def

section \<open>The content hash determines date, trimmed description and rounded amount\<close>



section \<open>Inserting a record that is already stored\<close>

text \<open>
  Claim C2. When the content hash of a record is already stored, inserting the record
  alone returns counts \<open>(0, 1)\<close> and a database whose table is the one before the call:
  only the AUTOINCREMENT counter has advanced. Inside a loop the row only advances the
  duplicate counter and that counter. Whatever batch contains the record, a returning
  call keeps the hashes unique, keeps every pre-existing row as it was, keeps the stored
  row of that hash as the only one of that hash, and counts at least one skipped row.
\<close>

theorem insert_existing_is_noop:
  assumes "hash_unique db"
    and "row_transaction_hash py row = Inr h"
    and "transaction_exists db h"
  shows "insert_transactions py now db [row] =
           Inr (db\<lparr>sqlite_sequence := next_rowid db\<rparr>, 0, 1) \<and>
         transactions (db\<lparr>sqlite_sequence := next_rowid db\<rparr>) = transactions db \<and>
         insert_loop py now db n k (row # rows) =
           insert_loop py now (db\<lparr>sqlite_sequence := next_rowid db\<rparr>) n (Suc k) rows \<and>
         (\<forall>df db' n' k'. row \<in> set df \<longrightarrow>
            insert_transactions py now db df = Inr (db', n', k') \<longrightarrow>
              hash_unique db' \<and>
              take (length (transactions db)) (transactions db') = transactions db \<and>
              filter (\<lambda>r. transaction_hash r = h) (transactions db') =
                filter (\<lambda>r. transaction_hash r = h) (transactions db) \<and>
              1 \<le> k')"
proof -
  from assms(3) have stored: "h \<in> set (map transaction_hash (transactions db))"
    by (simp add: transaction_exists_iff)
  from assms(2) obtain d c where dc: "Fecha_valor row = Some d" "Concepto row = Some c"
    and h: "h = generate_transaction_hash py (strftime_Ymd d) c (Importe row)"
    by (auto simp: row_transaction_hash_def split: option.splits)
  have step: "\<And>n k rows. insert_loop py now db n k (row # rows) =
      insert_loop py now (db\<lparr>sqlite_sequence := next_rowid db\<rparr>) n (Suc k) rows"
    using stored h by (intro insert_loop_ignored [OF dc]) simp
  have single: "insert_transactions py now db [row] =
      Inr (db\<lparr>sqlite_sequence := next_rowid db\<rparr>, 0, 1)"
    by (simp only: insert_transactions_def step) simp
  have batch: "hash_unique db' \<and>
              take (length (transactions db)) (transactions db') = transactions db \<and>
              filter (\<lambda>r. transaction_hash r = h) (transactions db') =
                filter (\<lambda>r. transaction_hash r = h) (transactions db) \<and>
              1 \<le> k'"
    if "row \<in> set df" and "insert_transactions py now db df = Inr (db', n', k')"
    for df db' n' k'
  proof -
    from that(2) have loop: "insert_loop py now db 0 0 df = Inr (db', n', k')"
      by (simp add: insert_transactions_def)
    from insert_loop_returns [OF loop] assms(1) obtain new where
      new: "transactions db' = transactions db @ new" and u: "hash_unique db'"
      by blast
    from u new have "set (map transaction_hash (transactions db)) \<inter> set (map transaction_hash new) = {}"
      by (simp add: hash_unique_def)
    with stored have "h \<notin> set (map transaction_hash new)"
      by blast
    then have "filter (\<lambda>r. transaction_hash r = h) new = []"
      by (auto simp: filter_empty_conv)
    with new have "filter (\<lambda>r. transaction_hash r = h) (transactions db') =
                filter (\<lambda>r. transaction_hash r = h) (transactions db)"
      by simp
    moreover from insert_loop_counts_existing [OF loop that(1) assms(2) stored] have "1 \<le> k'"
      by simp
    ultimately show ?thesis
      using u new by simp
  qed
  have "transactions (db\<lparr>sqlite_sequence := next_rowid db\<rparr>) = transactions db"
    by simp
  with step single batch show ?thesis
    by blast
qed

text \<open>
  An instance: the stored purchase is uploaded again with a trailing no-break space, the
  opposite sign and another category. The stored row keeps its category, and the
  AUTOINCREMENT counter goes from 1 to 2.
\<close>

theorem insert_existing_is_noop_witness:
  "insert_transactions py_ascii 7
     \<lparr>transactions =
         [\<lparr>row_id = 1,
           transaction_hash = ustr ''323032342d30312d31357c436f666665652073686f707c332e3530'',
           fecha_valor = ustr ''2024-01-15'', concepto = ustr ''Coffee shop'',
           importe = Finite 3.5, tipo = ustr ''Debit'', category = ustr ''Food'',
           upload_date = 1, last_modified = 1\<rparr>],
       sqlite_sequence = 1\<rparr>
     [\<lparr>Fecha_valor = Some \<lparr>year = 2024, month = 1, day = 15\<rparr>,
       Concepto = Some (ustr ''Coffee shop'' @ [0xA0]),
       Importe = Finite (- 3.5), Tipo = ustr ''Debit'', Category = ustr ''Uncategorized''\<rparr>] =
   Inr (\<lparr>transactions =
         [\<lparr>row_id = 1,
           transaction_hash = ustr ''323032342d30312d31357c436f666665652073686f707c332e3530'',
           fecha_valor = ustr ''2024-01-15'', concepto = ustr ''Coffee shop'',
           importe = Finite 3.5, tipo = ustr ''Debit'', category = ustr ''Food'',
           upload_date = 1, last_modified = 1\<rparr>],
       sqlite_sequence = 2\<rparr>, 0, 1)"
proof -
  let ?h = "ustr ''323032342d30312d31357c436f666665652073686f707c332e3530''"
  let ?db = "\<lparr>transactions =
         [\<lparr>row_id = 1, transaction_hash = ?h,
           fecha_valor = ustr ''2024-01-15'', concepto = ustr ''Coffee shop'',
           importe = Finite 3.5, tipo = ustr ''Debit'', category = ustr ''Food'',
           upload_date = 1, last_modified = 1\<rparr>],
       sqlite_sequence = 1\<rparr>"
  let ?row = "\<lparr>Fecha_valor = Some \<lparr>year = 2024, month = 1, day = 15\<rparr>,
       Concepto = Some (ustr ''Coffee shop'' @ [0xA0]),
       Importe = Finite (- 3.5), Tipo = ustr ''Debit'', Category = ustr ''Uncategorized''\<rparr>"
  have u: "hash_unique ?db"
    by (simp add: hash_unique_def)
  have h: "row_transaction_hash py_ascii ?row = Inr ?h"
    by (simp add: hash_eval)
  have e: "transaction_exists ?db ?h"
    by (simp add: transaction_exists_def)
  have s: "next_rowid ?db = 2"
    by (simp add: next_rowid_def)
  from insert_existing_is_noop [OF u h e, of 7 0 0 "[]", THEN conjunct1] s show ?thesis
    by simp
qed

section \<open>Inserting a batch twice\<close>

text \<open>
  Claim C3, as amended. For a batch of \<open>N\<close> well-formed rows whose content hashes are
  pairwise distinct and none of which is stored, the first call returns \<open>(N, 0)\<close>, and a
  second call on the resulting database returns \<open>(0, N)\<close> and leaves the table of stored
  rows as the first call left it.
\<close>

theorem insert_transactions_idempotent:
  assumes "\<forall>row \<in> set df. well_formed row"
    and "distinct (map (row_transaction_hash py) df)"
    and "\<forall>row \<in> set df. \<forall>h. row_transaction_hash py row = Inr h \<longrightarrow>
           \<not> transaction_exists db h"
  shows "\<exists>db' db''. insert_transactions py t1 db df = Inr (db', length df, 0) \<and>
               insert_transactions py t2 db' df = Inr (db'', 0, length df) \<and>
               transactions db'' = transactions db' \<and>
               length (transactions db') = length (transactions db) + length df"
proof -
  from assms(3) have "\<forall>row \<in> set df. \<forall>h. row_transaction_hash py row = Inr h \<longrightarrow>
           h \<notin> set (map transaction_hash (transactions db))"
    by (simp add: transaction_exists_iff)
  from insert_loop_all_fresh [OF assms(1,2) this, of t1 0 0] obtain db' where
    first: "insert_transactions py t1 db df = Inr (db', length df, 0)"
    by (auto simp: insert_transactions_def)
  then have "insert_loop py t1 db 0 0 df = Inr (db', length df, 0)"
    by (simp add: insert_transactions_def)
  from insert_loop_returns [OF this]
  have len: "length (transactions db') = length (transactions db) + length df"
    by auto
  from insert_transactions_again [OF first, of t2] first len show ?thesis
    by blast
qed

text \<open>An instance: two different purchases uploaded twice into the empty database.\<close>

theorem insert_transactions_idempotent_witness:
  "\<exists>db' db''.
     insert_transactions py_ascii 1 init_database
       [\<lparr>Fecha_valor = Some \<lparr>year = 2024, month = 1, day = 15\<rparr>,
         Concepto = Some (ustr ''Coffee shop''), Importe = Finite 3.5,
         Tipo = ustr ''Credit'', Category = ustr ''Food''\<rparr>,
        \<lparr>Fecha_valor = Some \<lparr>year = 2024, month = 1, day = 15\<rparr>,
         Concepto = Some (ustr ''Bus ticket''), Importe = Finite 1.2,
         Tipo = ustr ''Credit'', Category = ustr ''Uncategorized''\<rparr>] = Inr (db', 2, 0) \<and>
     insert_transactions py_ascii 2 db'
       [\<lparr>Fecha_valor = Some \<lparr>year = 2024, month = 1, day = 15\<rparr>,
         Concepto = Some (ustr ''Coffee shop''), Importe = Finite 3.5,
         Tipo = ustr ''Credit'', Category = ustr ''Food''\<rparr>,
        \<lparr>Fecha_valor = Some \<lparr>year = 2024, month = 1, day = 15\<rparr>,
         Concepto = Some (ustr ''Bus ticket''), Importe = Finite 1.2,
         Tipo = ustr ''Credit'', Category = ustr ''Uncategorized''\<rparr>] = Inr (db'', 0, 2) \<and>
     transactions db'' = transactions db' \<and> length (transactions db') = 2"
proof -
  let ?df = "[\<lparr>Fecha_valor = Some \<lparr>year = 2024, month = 1, day = 15\<rparr>,
         Concepto = Some (ustr ''Coffee shop''), Importe = Finite 3.5,
         Tipo = ustr ''Credit'', Category = ustr ''Food''\<rparr>,
        \<lparr>Fecha_valor = Some \<lparr>year = 2024, month = 1, day = 15\<rparr>,
         Concepto = Some (ustr ''Bus ticket''), Importe = Finite 1.2,
         Tipo = ustr ''Credit'', Category = ustr ''Uncategorized''\<rparr>]"
  have wf: "\<forall>row \<in> set ?df. well_formed row"
    by (simp add: well_formed_def)
  have d: "distinct (map (row_transaction_hash py_ascii) ?df)"
    by (simp add: hash_eval)
  have f: "\<forall>row \<in> set ?df. \<forall>h. row_transaction_hash py_ascii row = Inr h \<longrightarrow>
           \<not> transaction_exists init_database h"
    by (simp add: transaction_exists_def init_database_def)
  from insert_transactions_idempotent [OF wf d f, of 1 2] show ?thesis
    by (simp add: numeral_2_eq_2 init_database_def)
qed

text \<open>
  Claim C3 as stated fails on a batch that holds the same purchase twice: of two
  well-formed rows inserted into the empty database, one is written and one is skipped.
\<close>

theorem insert_transactions_same_row_twice_counterexample:
  "well_formed \<lparr>Fecha_valor = Some \<lparr>year = 2024, month = 1, day = 15\<rparr>,
       Concepto = Some (ustr ''Coffee shop''), Importe = Finite 3.5,
       Tipo = ustr ''Credit'', Category = ustr ''Food''\<rparr> \<and>
   transactions init_database = [] \<and>
   map_sum id snd
     (insert_transactions py_ascii 1 init_database
        [\<lparr>Fecha_valor = Some \<lparr>year = 2024, month = 1, day = 15\<rparr>,
          Concepto = Some (ustr ''Coffee shop''), Importe = Finite 3.5,
          Tipo = ustr ''Credit'', Category = ustr ''Food''\<rparr>,
         \<lparr>Fecha_valor = Some \<lparr>year = 2024, month = 1, day = 15\<rparr>,
          Concepto = Some (ustr ''Coffee shop''), Importe = Finite 3.5,
          Tipo = ustr ''Credit'', Category = ustr ''Food''\<rparr>]) = Inr (1, 1)"
  by (simp add: well_formed_def insert_eval hash_eval)

section \<open>A batch with a missing description\<close>

text \<open>
  Claim C10 at a batch whose second row has an empty description cell: the handler of the
  row's exception raises in turn, so the call returns no counts at all.
\<close>

theorem insert_transactions_missing_description:
  "insert_transactions py_ascii 1 init_database
     [\<lparr>Fecha_valor = Some \<lparr>year = 2024, month = 1, day = 15\<rparr>,
       Concepto = Some (ustr ''Coffee shop''), Importe = Finite 3.5,
       Tipo = ustr ''Credit'', Category = ustr ''Food''\<rparr>,
      \<lparr>Fecha_valor = Some \<lparr>year = 2024, month = 1, day = 15\<rparr>, Concepto = None,
       Importe = Finite 1.2, Tipo = ustr ''Credit'', Category = ustr ''Uncategorized''\<rparr>] =
   Inl TypeError"
  by (simp add: insert_eval hash_eval)

section \<open>Properties of UPDATE\<close>

lemma sql_update_fst:
  "fst (sql_update cond upd rs) = map (\<lambda>r. if cond r then upd r else r) rs"
  by (induction rs) (simp_all add: case_prod_beta Let_def)

lemma sql_update_snd:
  "snd (sql_update cond upd rs) = length (filter cond rs)"
  by (induction rs) (simp_all add: case_prod_beta Let_def)

lemma filter_hash_unique:
  assumes "distinct (map transaction_hash rs)" "i < length rs" "transaction_hash (rs ! i) = h"
  shows "map (\<lambda>r. if transaction_hash r = h then upd r else r) rs = rs[i := upd (rs ! i)]"
proof (rule nth_equalityI)
  show "length (map (\<lambda>r. if transaction_hash r = h then upd r else r) rs) = length (rs[i := upd (rs ! i)])"
    by simp
next
  fix j
  assume "j < length (map (\<lambda>r. if transaction_hash r = h then upd r else r) rs)"
  then have j: "j < length rs"
    by simp
  show "map (\<lambda>r. if transaction_hash r = h then upd r else r) rs ! j = rs[i := upd (rs ! i)] ! j"
  proof (cases "j = i")
    case True
    with assms j show ?thesis by simp
  next
    case False
    with assms j have "transaction_hash (rs ! j) \<noteq> h"
      by (metis distinct_conv_nth length_map nth_map)
    with False j show ?thesis by simp
  qed
qed

section \<open>Updating the category of the rows with a given description\<close>

text \<open>
  Claim C7. \<open>update_transactions_by_concept\<close> returns the number of stored rows whose
  description equals the argument exactly; it sets the category and the modification
  time of exactly those rows, changes no other field of them, and leaves every other
  row, its modification time included, as it was.
\<close>

theorem update_transactions_by_concept_frame:
  assumes "update_transactions_by_concept now db c new_category = (db', updated_count)"
  shows "updated_count = length (filter (\<lambda>r. concepto r = c) (transactions db)) \<and>
         length (transactions db') = length (transactions db) \<and>
         sqlite_sequence db' = sqlite_sequence db \<and>
         (\<forall>i < length (transactions db).
            (concepto (transactions db ! i) = c \<longrightarrow>
               transactions db' ! i =
                 (transactions db ! i)\<lparr>category := new_category, last_modified := now\<rparr>) \<and>
            (concepto (transactions db ! i) \<noteq> c \<longrightarrow>
               transactions db' ! i = transactions db ! i))"
proof -
  let ?u = "\<lambda>r. r\<lparr>category := new_category, last_modified := now\<rparr>"
  let ?res = "sql_update (\<lambda>r. concepto r = c) ?u (transactions db)"
  from assms have db': "db' = db\<lparr>transactions := fst ?res\<rparr>" and n: "updated_count = snd ?res"
    by (simp_all add: update_transactions_by_concept_def case_prod_beta)
  from n have "updated_count = length (filter (\<lambda>r. concepto r = c) (transactions db))"
    by (simp add: sql_update_snd)
  moreover from db' have rows: "transactions db' =
      map (\<lambda>r. if concepto r = c then ?u r else r) (transactions db)"
    by (simp add: sql_update_fst)
  moreover from db' have "sqlite_sequence db' = sqlite_sequence db"
    by simp
  ultimately show ?thesis
    by simp
qed

text \<open>
  An instance: of two rows whose descriptions differ by a trailing blank, only the exact
  match is recategorised.
\<close>

theorem update_transactions_by_concept_frame_witness:
  "update_transactions_by_concept 9
     \<lparr>transactions =
        [\<lparr>row_id = 1, transaction_hash = ustr ''a1'', fecha_valor = ustr ''2024-01-15'',
          concepto = ustr ''MERCADONA'', importe = Finite 20, tipo = ustr ''Debit'',
          category = ustr ''Uncategorized'', upload_date = 1, last_modified = 1\<rparr>,
         \<lparr>row_id = 2, transaction_hash = ustr ''b2'', fecha_valor = ustr ''2024-01-16'',
          concepto = ustr ''MERCADONA '', importe = Finite 5, tipo = ustr ''Debit'',
          category = ustr ''Uncategorized'', upload_date = 1, last_modified = 1\<rparr>],
      sqlite_sequence = 2\<rparr> (ustr ''MERCADONA'') (ustr ''Groceries'') =
   (\<lparr>transactions =
        [\<lparr>row_id = 1, transaction_hash = ustr ''a1'', fecha_valor = ustr ''2024-01-15'',
          concepto = ustr ''MERCADONA'', importe = Finite 20, tipo = ustr ''Debit'',
          category = ustr ''Groceries'', upload_date = 1, last_modified = 9\<rparr>,
         \<lparr>row_id = 2, transaction_hash = ustr ''b2'', fecha_valor = ustr ''2024-01-16'',
          concepto = ustr ''MERCADONA '', importe = Finite 5, tipo = ustr ''Debit'',
          category = ustr ''Uncategorized'', upload_date = 1, last_modified = 1\<rparr>],
      sqlite_sequence = 2\<rparr>, 1)"
proof -
  let ?db = "\<lparr>transactions =
        [\<lparr>row_id = 1, transaction_hash = ustr ''a1'', fecha_valor = ustr ''2024-01-15'',
          concepto = ustr ''MERCADONA'', importe = Finite 20, tipo = ustr ''Debit'',
          category = ustr ''Uncategorized'', upload_date = 1, last_modified = 1\<rparr>,
         \<lparr>row_id = 2, transaction_hash = ustr ''b2'', fecha_valor = ustr ''2024-01-16'',
          concepto = ustr ''MERCADONA '', importe = Finite 5, tipo = ustr ''Debit'',
          category = ustr ''Uncategorized'', upload_date = 1, last_modified = 1\<rparr>],
      sqlite_sequence = 2\<rparr>"
  obtain db' n where r: "update_transactions_by_concept 9 ?db (ustr ''MERCADONA'') (ustr ''Groceries'') = (db', n)"
    by (cases "update_transactions_by_concept 9 ?db (ustr ''MERCADONA'') (ustr ''Groceries'')")
  from update_transactions_by_concept_frame [OF r]
  have "n = 1" and "length (transactions db') = 2" and "sqlite_sequence db' = 2"
    and "transactions db' ! 0 = (transactions ?db ! 0)\<lparr>category := ustr ''Groceries'', last_modified := 9\<rparr>"
    and "transactions db' ! 1 = transactions ?db ! 1"
    by simp_all
  then have "db' = \<lparr>transactions =
        [\<lparr>row_id = 1, transaction_hash = ustr ''a1'', fecha_valor = ustr ''2024-01-15'',
          concepto = ustr ''MERCADONA'', importe = Finite 20, tipo = ustr ''Debit'',
          category = ustr ''Groceries'', upload_date = 1, last_modified = 9\<rparr>,
         \<lparr>row_id = 2, transaction_hash = ustr ''b2'', fecha_valor = ustr ''2024-01-16'',
          concepto = ustr ''MERCADONA '', importe = Finite 5, tipo = ustr ''Debit'',
          category = ustr ''Uncategorized'', upload_date = 1, last_modified = 1\<rparr>],
      sqlite_sequence = 2\<rparr>"
    by (cases db') (auto simp: list_eq_iff_nth_eq less_Suc_eq numeral_2_eq_2)
  with r \<open>n = 1\<close> show ?thesis
    by simp
qed

section \<open>Updating the category of the row with a given hash\<close>

text \<open>
  Claim C8. On a database whose hashes are unique, \<open>update_transaction_category\<close> sets
  the category and the modification time of exactly one row, the one with the given
  hash, when such a row is stored, and returns the database unchanged when none is; the
  function has no error result in either case.
\<close>

theorem update_transaction_category_one_or_none:
  assumes "hash_unique db"
  shows "(transaction_exists db h \<longrightarrow>
            (\<exists>i < length (transactions db).
               transaction_hash (transactions db ! i) = h \<and>
               update_transaction_category now db h new_category =
                 db\<lparr>transactions :=
                      (transactions db)
                        [i := (transactions db ! i)\<lparr>category := new_category, last_modified := now\<rparr>]\<rparr>)) \<and>
         (\<not> transaction_exists db h \<longrightarrow> update_transaction_category now db h new_category = db)"
proof (intro conjI impI)
  assume "transaction_exists db h"
  then have "h \<in> set (map transaction_hash (transactions db))"
    by (simp add: transaction_exists_iff)
  then obtain i where i: "i < length (transactions db)" "transaction_hash (transactions db ! i) = h"
    by (auto simp: in_set_conv_nth)
  from assms have "distinct (map transaction_hash (transactions db))"
    by (simp add: hash_unique_def)
  from filter_hash_unique [OF this i]
  have "update_transaction_category now db h new_category =
                 db\<lparr>transactions :=
                      (transactions db)
                        [i := (transactions db ! i)\<lparr>category := new_category, last_modified := now\<rparr>]\<rparr>"
    by (simp add: update_transaction_category_def sql_update_fst)
  with i show "\<exists>i < length (transactions db).
               transaction_hash (transactions db ! i) = h \<and>
               update_transaction_category now db h new_category =
                 db\<lparr>transactions :=
                      (transactions db)
                        [i := (transactions db ! i)\<lparr>category := new_category, last_modified := now\<rparr>]\<rparr>"
    by blast
next
  assume "\<not> transaction_exists db h"
  then have "\<forall>r \<in> set (transactions db). transaction_hash r \<noteq> h"
    by (auto simp: transaction_exists_iff)
  then have "map (\<lambda>r. if transaction_hash r = h
                       then r\<lparr>category := new_category, last_modified := now\<rparr> else r)
               (transactions db) = transactions db"
    by (induction "transactions db") (auto simp: map_idI)
  then show "update_transaction_category now db h new_category = db"
    by (simp add: update_transaction_category_def sql_update_fst)
qed

text \<open>
  An instance: with two stored rows, updating by the hash of the second changes that row
  only, and updating by a hash that is not stored changes nothing.
\<close>

theorem update_transaction_category_one_or_none_witness:
  "update_transaction_category 9
     \<lparr>transactions =
        [\<lparr>row_id = 1, transaction_hash = ustr ''a1'', fecha_valor = ustr ''2024-01-15'',
          concepto = ustr ''MERCADONA'', importe = Finite 20, tipo = ustr ''Debit'',
          category = ustr ''Uncategorized'', upload_date = 1, last_modified = 1\<rparr>,
         \<lparr>row_id = 2, transaction_hash = ustr ''b2'', fecha_valor = ustr ''2024-01-16'',
          concepto = ustr ''MERCADONA'', importe = Finite 5, tipo = ustr ''Debit'',
          category = ustr ''Uncategorized'', upload_date = 1, last_modified = 1\<rparr>],
      sqlite_sequence = 2\<rparr> (ustr ''b2'') (ustr ''Groceries'') =
     \<lparr>transactions =
        [\<lparr>row_id = 1, transaction_hash = ustr ''a1'', fecha_valor = ustr ''2024-01-15'',
          concepto = ustr ''MERCADONA'', importe = Finite 20, tipo = ustr ''Debit'',
          category = ustr ''Uncategorized'', upload_date = 1, last_modified = 1\<rparr>,
         \<lparr>row_id = 2, transaction_hash = ustr ''b2'', fecha_valor = ustr ''2024-01-16'',
          concepto = ustr ''MERCADONA'', importe = Finite 5, tipo = ustr ''Debit'',
          category = ustr ''Groceries'', upload_date = 1, last_modified = 9\<rparr>],
      sqlite_sequence = 2\<rparr> \<and>
   update_transaction_category 9
     \<lparr>transactions =
        [\<lparr>row_id = 1, transaction_hash = ustr ''a1'', fecha_valor = ustr ''2024-01-15'',
          concepto = ustr ''MERCADONA'', importe = Finite 20, tipo = ustr ''Debit'',
          category = ustr ''Uncategorized'', upload_date = 1, last_modified = 1\<rparr>,
         \<lparr>row_id = 2, transaction_hash = ustr ''b2'', fecha_valor = ustr ''2024-01-16'',
          concepto = ustr ''MERCADONA'', importe = Finite 5, tipo = ustr ''Debit'',
          category = ustr ''Uncategorized'', upload_date = 1, last_modified = 1\<rparr>],
      sqlite_sequence = 2\<rparr> (ustr ''zz'') (ustr ''Groceries'') =
     \<lparr>transactions =
        [\<lparr>row_id = 1, transaction_hash = ustr ''a1'', fecha_valor = ustr ''2024-01-15'',
          concepto = ustr ''MERCADONA'', importe = Finite 20, tipo = ustr ''Debit'',
          category = ustr ''Uncategorized'', upload_date = 1, last_modified = 1\<rparr>,
         \<lparr>row_id = 2, transaction_hash = ustr ''b2'', fecha_valor = ustr ''2024-01-16'',
          concepto = ustr ''MERCADONA'', importe = Finite 5, tipo = ustr ''Debit'',
          category = ustr ''Uncategorized'', upload_date = 1, last_modified = 1\<rparr>],
      sqlite_sequence = 2\<rparr>"
proof -
  let ?db = "\<lparr>transactions =
        [\<lparr>row_id = 1, transaction_hash = ustr ''a1'', fecha_valor = ustr ''2024-01-15'',
          concepto = ustr ''MERCADONA'', importe = Finite 20, tipo = ustr ''Debit'',
          category = ustr ''Uncategorized'', upload_date = 1, last_modified = 1\<rparr>,
         \<lparr>row_id = 2, transaction_hash = ustr ''b2'', fecha_valor = ustr ''2024-01-16'',
          concepto = ustr ''MERCADONA'', importe = Finite 5, tipo = ustr ''Debit'',
          category = ustr ''Uncategorized'', upload_date = 1, last_modified = 1\<rparr>],
      sqlite_sequence = 2\<rparr>"
  have u: "hash_unique ?db"
    by (simp add: hash_unique_def)
  have e: "transaction_exists ?db (ustr ''b2'')"
    by (simp add: transaction_exists_def)
  have ne: "\<not> transaction_exists ?db (ustr ''zz'')"
    by (simp add: transaction_exists_def)
  from update_transaction_category_one_or_none [OF u, of "ustr ''b2''" 9 "ustr ''Groceries''"] e
  obtain i where i: "i < length (transactions ?db)"
    "transaction_hash (transactions ?db ! i) = ustr ''b2''"
    and r: "update_transaction_category 9 ?db (ustr ''b2'') (ustr ''Groceries'') =
      ?db\<lparr>transactions :=
            (transactions ?db)
              [i := (transactions ?db ! i)\<lparr>category := ustr ''Groceries'', last_modified := 9\<rparr>]\<rparr>"
    by blast
  from i have "i = 1"
    by (auto simp: less_Suc_eq numeral_2_eq_2)
  with r have "update_transaction_category 9 ?db (ustr ''b2'') (ustr ''Groceries'') =
     \<lparr>transactions =
        [\<lparr>row_id = 1, transaction_hash = ustr ''a1'', fecha_valor = ustr ''2024-01-15'',
          concepto = ustr ''MERCADONA'', importe = Finite 20, tipo = ustr ''Debit'',
          category = ustr ''Uncategorized'', upload_date = 1, last_modified = 1\<rparr>,
         \<lparr>row_id = 2, transaction_hash = ustr ''b2'', fecha_valor = ustr ''2024-01-16'',
          concepto = ustr ''MERCADONA'', importe = Finite 5, tipo = ustr ''Debit'',
          category = ustr ''Groceries'', upload_date = 1, last_modified = 9\<rparr>],
      sqlite_sequence = 2\<rparr>"
    by simp
  moreover from update_transaction_category_one_or_none [OF u, of "ustr ''zz''" 9 "ustr ''Groceries''"] ne
  have "update_transaction_category 9 ?db (ustr ''zz'') (ustr ''Groceries'') = ?db"
    by blast
  ultimately show ?thesis
    by blast
qed


section \<open>Properties of the keyword categoriser\<close>

lemma startswith_iff: "startswith s p \<longleftrightarrow> (\<exists>q. s = p @ q)"
  by (induction s p rule: startswith.induct) auto

text \<open>\<open>contains\<close> is the substring test.\<close>

lemma contains_iff: "contains s k \<longleftrightarrow> (\<exists>p q. s = p @ k @ q)"
proof (induction s)
  case Nil
  then show ?case by auto
next
  case (Cons c cs)
  show ?case
  proof
    assume "contains (c # cs) k"
    then consider "startswith (c # cs) k" | "contains cs k"
      by auto
    then show "\<exists>p q. c # cs = p @ k @ q"
    proof cases
      case 1
      then obtain q where "c # cs = k @ q"
        by (auto simp: startswith_iff)
      then have "c # cs = [] @ k @ q"
        by simp
      then show ?thesis by blast
    next
      case 2
      with Cons obtain p q where "cs = p @ k @ q"
        by blast
      then have "c # cs = (c # p) @ k @ q"
        by simp
      then show ?thesis by blast
    qed
  next
    assume "\<exists>p q. c # cs = p @ k @ q"
    then obtain p q where pq: "c # cs = p @ k @ q"
      by blast
    show "contains (c # cs) k"
    proof (cases p)
      case Nil
      with pq have "startswith (c # cs) k"
        by (auto simp: startswith_iff)
      then show ?thesis by simp
    next
      case (Cons a p')
      with pq have "cs = p' @ k @ q"
        by simp
      with Cons.IH have "contains cs k"
        by blast
      then show ?thesis by simp
    qed
  qed
qed

lemma categorize_rows_strings:
  assumes "\<forall>row \<in> set df. Concepto row \<noteq> None"
  shows "categorize_rows py cat kws df =
           Inr (map (\<lambda>row. if list_ex (contains (strip (str_lower py (the (Concepto row))))) kws
                            then row\<lparr>Category := cat\<rparr> else row) df)"
  using assms by (induction df) (auto simp: Let_def)

lemma matching_categories_Cons:
  "matching_categories py ((cat, keywords) # rest) c =
     (if cat \<noteq> UNCATEGORIZED_CATEGORY \<and> keywords \<noteq> [] \<and> keyword_matches py c keywords
      then cat # matching_categories py rest c else matching_categories py rest c)"
  by (simp add: matching_categories_def)

lemma categorize_loop_strings:
  assumes "\<forall>row \<in> set df. Concepto row \<noteq> None"
  shows "categorize_loop py cats df =
           Inr (map (\<lambda>row. if matching_categories py cats (the (Concepto row)) = [] then row
                            else row\<lparr>Category := last (matching_categories py cats (the (Concepto row)))\<rparr>)
                    df)"
  using assms
proof (induction cats arbitrary: df)
  case Nil
  then show ?case
    by (simp add: matching_categories_def)
next
  case (Cons p cats)
  obtain cat ks where p: "p = (cat, ks)"
    by (cases p)
  show ?case
  proof (cases "cat = UNCATEGORIZED_CATEGORY \<or> ks = []")
    case True
    with p Cons show ?thesis
      by (auto simp: matching_categories_Cons)
  next
    case False
    let ?kws = "map (\<lambda>keyword. strip (str_lower py keyword)) ks"
    let ?step = "\<lambda>row. if list_ex (contains (strip (str_lower py (the (Concepto row))))) ?kws
                       then row\<lparr>Category := cat\<rparr> else row"
    have m: "\<And>c. list_ex (contains (strip (str_lower py c))) ?kws = keyword_matches py c ks"
      by (simp add: keyword_matches_def list_ex_iff)
    have rows: "categorize_rows py cat ?kws df = Inr (map ?step df)"
      using Cons.prems by (rule categorize_rows_strings)
    have strings: "\<forall>row \<in> set (map ?step df). Concepto row \<noteq> None"
      using Cons.prems by auto
    have "categorize_loop py (p # cats) df = categorize_loop py cats (map ?step df)"
      using False p rows by simp
    also have "\<dots> = Inr (map (\<lambda>row. if matching_categories py cats (the (Concepto row)) = [] then row
                            else row\<lparr>Category := last (matching_categories py cats (the (Concepto row)))\<rparr>)
                    (map ?step df))"
      using strings by (rule Cons.IH)
    also have "\<dots> = Inr (map (\<lambda>row. if matching_categories py (p # cats) (the (Concepto row)) = [] then row
                            else row\<lparr>Category := last (matching_categories py (p # cats) (the (Concepto row)))\<rparr>)
                    df)"
      using False by (auto simp: p m matching_categories_Cons)
    finally show ?thesis .
  qed
qed

section \<open>Which category the keyword categoriser assigns\<close>

text \<open>
  Claim C4, as amended. On rows whose descriptions are strings, the categoriser gives
  every row the last category, in registry order, among the matching ones: those other
  than \<open>Uncategorized\<close> with a non-empty keyword list, one of whose keywords, lowercased
  and stripped, is a substring of the lowercased, stripped description. A row that no
  category matches gets \<open>Uncategorized\<close>.
\<close>

theorem categorize_transactions_last_match:
  assumes "\<forall>row \<in> set df. Concepto row \<noteq> None"
  shows "categorize_transactions py cats df =
           Inr (map (\<lambda>row. row\<lparr>Category :=
                               (if matching_categories py cats (the (Concepto row)) = []
                                then UNCATEGORIZED_CATEGORY
                                else last (matching_categories py cats (the (Concepto row))))\<rparr>)
                    df)"
proof -
  let ?df0 = "map (\<lambda>row. row\<lparr>Category := UNCATEGORIZED_CATEGORY\<rparr>) df"
  have "\<forall>row \<in> set ?df0. Concepto row \<noteq> None"
    using assms by auto
  from categorize_loop_strings [OF this, of py cats] show ?thesis
    by (auto simp: categorize_transactions_def)
qed

text \<open>The equations that evaluate the categoriser on concrete rows.\<close>

lemmas categorize_eval =
  categorize_transactions_def matching_categories_def keyword_matches_def
  UNCATEGORIZED_CATEGORY_def py_ascii_def ascii_lower_def
  strip_def lstrip_def rstrip_def isspace_def Let_def

text \<open>
  An instance, the scenario of the specification: with the registry
  \<open>{"Uncategorized": [], "Groceries": ["MERCADONA"]}\<close> a description containing
  \<open>Mercadona\<close> is categorised as \<open>Groceries\<close> and another one stays \<open>Uncategorized\<close>.
\<close>

theorem categorize_transactions_last_match_witness:
  "categorize_transactions py_ascii
     [(ustr ''Uncategorized'', []), (ustr ''Groceries'', [ustr ''MERCADONA''])]
     [\<lparr>Fecha_valor = None, Concepto = Some (ustr ''Compra Mercadona 12''),
       Importe = Finite 20, Tipo = ustr ''Debit'', Category = []\<rparr>,
      \<lparr>Fecha_valor = None, Concepto = Some (ustr ''Renfe''), Importe = Finite 5,
       Tipo = ustr ''Debit'', Category = []\<rparr>] =
   Inr [\<lparr>Fecha_valor = None, Concepto = Some (ustr ''Compra Mercadona 12''),
         Importe = Finite 20, Tipo = ustr ''Debit'', Category = ustr ''Groceries''\<rparr>,
        \<lparr>Fecha_valor = None, Concepto = Some (ustr ''Renfe''), Importe = Finite 5,
         Tipo = ustr ''Debit'', Category = ustr ''Uncategorized''\<rparr>]"
proof -
  let ?cats = "[(ustr ''Uncategorized'', []), (ustr ''Groceries'', [ustr ''MERCADONA''])]"
  let ?df = "[\<lparr>Fecha_valor = None, Concepto = Some (ustr ''Compra Mercadona 12''),
       Importe = Finite 20, Tipo = ustr ''Debit'', Category = []\<rparr>,
      \<lparr>Fecha_valor = None, Concepto = Some (ustr ''Renfe''), Importe = Finite 5,
       Tipo = ustr ''Debit'', Category = []\<rparr>]"
  have s: "\<forall>row \<in> set ?df. Concepto row \<noteq> None"
    by simp
  have m1: "matching_categories py_ascii ?cats (ustr ''Compra Mercadona 12'') = [ustr ''Groceries'']"
    by (simp add: categorize_eval)
  have m2: "matching_categories py_ascii ?cats (ustr ''Renfe'') = []"
    by (simp add: categorize_eval)
  from categorize_transactions_last_match [OF s, of py_ascii ?cats] m1 m2 show ?thesis
    by (simp add: UNCATEGORIZED_CATEGORY_def)
qed

text \<open>
  Claim C4 as stated fails when two categories match: the first matching category in
  registry order is \<open>Food\<close>, and the categoriser assigns \<open>Drinks\<close>.
\<close>

theorem categorize_transactions_first_match_counterexample:
  "hd (matching_categories py_ascii
         [(ustr ''Food'', [ustr ''coffee'']), (ustr ''Drinks'', [ustr ''coffee''])]
         (ustr ''Coffee shop'')) = ustr ''Food'' \<and>
   categorize_transactions py_ascii
     [(ustr ''Food'', [ustr ''coffee'']), (ustr ''Drinks'', [ustr ''coffee''])]
     [\<lparr>Fecha_valor = None, Concepto = Some (ustr ''Coffee shop''), Importe = Finite 3.5,
       Tipo = ustr ''Debit'', Category = []\<rparr>] =
   Inr [\<lparr>Fecha_valor = None, Concepto = Some (ustr ''Coffee shop''), Importe = Finite 3.5,
         Tipo = ustr ''Debit'', Category = ustr ''Drinks''\<rparr>]"
  by (simp add: categorize_eval)

section \<open>Properties of the amount parser\<close>












lemma py_float_Inl: "py_float py s = Inl e \<Longrightarrow> e = ValueError"
  by (auto simp: py_float_def Let_def split: option.splits if_splits prod.splits)

lemma astype_float_fails:
  assumes "cell \<in> set cells" "parse_importe py cell = Inl e"
  shows "astype_float py cells = Inl ValueError"
proof -
  have err: "\<And>c e'. parse_importe py c = Inl e' \<Longrightarrow> e' = ValueError"
    by (auto simp: parse_importe_def dest: py_float_Inl split: option.splits)
  from assms show ?thesis
  proof (induction cells)
    case Nil
    then show ?case by simp
  next
    case (Cons c cells)
    then show ?case
      by (cases "parse_importe py c"; cases "astype_float py cells") (auto dest: err)
  qed
qed

lemma astype_float_length:
  "astype_float py cells = Inr xs \<Longrightarrow> length xs = length cells"
  by (induction cells arbitrary: xs) (auto split: sum.splits)

lemma astype_float_nth:
  "astype_float py cells = Inr xs \<Longrightarrow> i < length cells \<Longrightarrow>
   parse_importe py (cells ! i) = Inr (xs ! i)"
proof (induction cells arbitrary: xs i)
  case Nil
  then show ?case by simp
next
  case (Cons c cells)
  then show ?case
    by (cases i) (auto split: sum.splits)
qed




subsection \<open>Rounding to binary64\<close>







text \<open>The equations that evaluate the conversion of a concrete amount text.\<close>

lemmas float_eval =
  parse_importe_def clean_importe_def euro_def py_float_def py_ascii_def
  ascii_strip_def ascii_isspace_def isspace_def split_sign_def ascii_lower_def
  parse_decimal_def parse_exponent_def is_digit_def digits_val_def digit_val_def Let_def




section \<open>The amount column: separators, sign and kind\<close>




section \<open>Rows that fail\<close>

lemma add_duplicates_simps [simp]:
  "add_duplicates j (Inl e) = Inl e"
  "add_duplicates j (Inr (db', n', k')) = Inr (db', n', k' + j)"
  by (simp_all add: add_duplicates_def)

lemma astype_float_Inl: "astype_float py cells = Inl e \<Longrightarrow> e = ValueError"
proof (induction cells)
  case Nil
  then show ?case by simp
next
  case (Cons c cells)
  show ?case
  proof (cases "parse_importe py c")
    case (Inl e')
    then have "astype_float py (c # cells) = Inl ValueError"
      by (intro astype_float_fails [of c]) simp_all
    with Cons.prems show ?thesis by simp
  next
    case (Inr x)
    with Cons show ?thesis
      by (cases "astype_float py cells") simp_all
  qed
qed

lemma to_datetime_fails:
  assumes "Some s \<in> set cells" "to_datetime_dmY py s = Inl e"
  shows "\<exists>e'. to_datetime py cells = Inl e'"
  using assms
proof (induction py cells rule: to_datetime.induct)
  case (1 py)
  then show ?case by simp
next
  case (2 py cells)
  then show ?case by (auto split: sum.splits)
next
  case (3 py s' cells)
  show ?case
  proof (cases "to_datetime_dmY py s'")
    case (Inl e')
    then show ?thesis
      by simp
  next
    case (Inr d)
    with 3 have "s' \<noteq> s"
      by auto
    with 3 Inr show ?thesis
      by (auto split: sum.splits)
  qed
qed

lemma load_transactions_malformed_amount:
  assumes "row \<in> set csv" "parse_importe py (csv_Importe row) = Inl e"
  shows "load_transactions py now cats db csv = (db, None, Inl ValueError)"
proof -
  from assms have "astype_float py (map csv_Importe csv) = Inl ValueError"
    by (intro astype_float_fails [of "csv_Importe row"]) simp_all
  then show ?thesis
    by (simp add: load_transactions_def)
qed

lemma load_transactions_malformed_date:
  assumes "row \<in> set csv" "csv_Fecha_valor row = Some s" "to_datetime_dmY py s = Inl e"
  shows "\<exists>e'. load_transactions py now cats db csv = (db, None, Inl e')"
proof (cases "astype_float py (map csv_Importe csv)")
  case (Inl e')
  then show ?thesis
    by (simp add: load_transactions_def)
next
  case (Inr xs)
  from assms have "\<exists>e'. to_datetime py (map csv_Fecha_valor csv) = Inl e'"
    by (intro to_datetime_fails [of s]) force+
  with Inr show ?thesis
    by (auto simp: load_transactions_def)
qed

text \<open>Starting the duplicate counter higher raises the final count by as much.\<close>

lemma insert_loop_shift:
  "insert_loop py now db n (k + j) rows =
     add_duplicates j (insert_loop py now db n k rows)"
proof (induction rows arbitrary: db n k)
  case Nil
  then show ?case by simp
next
  case (Cons row rows)
  have s: "\<And>db n k. insert_loop py now db n (Suc (k + j)) rows =
     add_duplicates j (insert_loop py now db n (Suc k) rows)"
    using Cons.IH [of _ _ "Suc _"] by simp
  show ?case
  proof (cases "try_insert py now db row")
    case (Inl e)
    then show ?thesis
      by (cases "Concepto row") (simp_all add: s)
  next
    case (Inr p)
    then show ?thesis
      by (cases p) (simp add: s Cons.IH)
  qed
qed

text \<open>
  A row without a date raises before the INSERT statement is reached, so it leaves the
  database, the AUTOINCREMENT counter included, as it was. Rows without a date are
  skipped: the loop ends in the database, and with the count of new rows, that it
  reaches on the batch without them, and counts each of them as a duplicate.
\<close>

lemma insert_loop_NaT:
  assumes "Concepto row \<noteq> None" "Fecha_valor row = None"
  shows "insert_loop py now db n k (row # rows) = insert_loop py now db n (Suc k) rows"
proof -
  from assms(2) have "try_insert py now db row = Inl ValueError"
    by (simp add: try_insert_def row_transaction_hash_def)
  with assms(1) show ?thesis
    by auto
qed

lemma insert_loop_without_NaT:
  assumes "\<forall>row \<in> set rows. Concepto row \<noteq> None"
  shows "insert_loop py now db n k rows =
     add_duplicates (length (filter (\<lambda>r. Fecha_valor r = None) rows))
       (insert_loop py now db n k (filter (\<lambda>r. Fecha_valor r \<noteq> None) rows))"
  using assms
proof (induction rows arbitrary: db n k)
  case Nil
  then show ?case by simp
next
  case (Cons row rows)
  let ?nat = "\<lambda>rs. length (filter (\<lambda>r. Fecha_valor r = None) rs)"
  let ?dated = "filter (\<lambda>r. Fecha_valor r \<noteq> None)"
  from Cons.prems have c: "Concepto row \<noteq> None"
    and IH: "\<And>db n k. insert_loop py now db n k rows =
       add_duplicates (?nat rows) (insert_loop py now db n k (?dated rows))"
    using Cons.IH by simp_all
  show ?case
  proof (cases "Fecha_valor row")
    case None
    with c have "insert_loop py now db n k (row # rows) = insert_loop py now db n (Suc k) rows"
      by (intro insert_loop_NaT) simp_all
    also have "\<dots> = add_duplicates (?nat rows)
                        (insert_loop py now db n (k + 1) (?dated rows))"
      using IH [of db n "Suc k"] by simp
    also have "\<dots> = add_duplicates (?nat rows)
                        (add_duplicates 1
                           (insert_loop py now db n k (?dated rows)))"
      by (simp only: insert_loop_shift)
    also have "\<dots> = add_duplicates (?nat (row # rows))
                        (insert_loop py now db n k (?dated (row # rows)))"
      using None by (cases "insert_loop py now db n k (?dated rows)") auto
    finally show ?thesis .
  next
    case (Some d)
    then have f: "?dated (row # rows) = row # ?dated rows" "?nat (row # rows) = ?nat rows"
      by simp_all
    show ?thesis
    proof (cases "try_insert py now db row")
      case (Inl e)
      with Some c show ?thesis
        using try_insert_Inl_iff [of py now db row] by auto
    next
      case (Inr p)
      then show ?thesis
        unfolding f by (cases p) (simp add: IH)
    qed
  qed
qed

section \<open>A malformed row in a batch\<close>

text \<open>
  Claim C9, as amended. A row whose amount text or date text does not parse makes
  \<open>load_transactions\<close> reject the whole batch: the database is unchanged, no counts are
  reported and the call fails. In \<open>insert_transactions\<close>, on a batch whose description
  cells are all strings, a row without a date is skipped and counted as a duplicate, and
  the remaining rows are processed as if it were absent.
\<close>

theorem malformed_row_outcomes:
  "(\<forall>row e. row \<in> set csv \<longrightarrow> parse_importe py (csv_Importe row) = Inl e \<longrightarrow>
      load_transactions py now cats db csv = (db, None, Inl ValueError)) \<and>
   (\<forall>row s e. row \<in> set csv \<longrightarrow> csv_Fecha_valor row = Some s \<longrightarrow>
      to_datetime_dmY py s = Inl e \<longrightarrow>
      (\<exists>e'. load_transactions py now cats db csv = (db, None, Inl e'))) \<and>
   ((\<forall>row \<in> set df. Concepto row \<noteq> None) \<longrightarrow>
      (\<exists>db' n k.
         insert_transactions py now db (filter (\<lambda>r. Fecha_valor r \<noteq> None) df) =
           Inr (db', n, k) \<and>
         insert_transactions py now db df =
           Inr (db', n, k + length (filter (\<lambda>r. Fecha_valor r = None) df))))"
proof (intro conjI allI impI)
  fix row e
  assume "row \<in> set csv" "parse_importe py (csv_Importe row) = Inl e"
  then show "load_transactions py now cats db csv = (db, None, Inl ValueError)"
    by (rule load_transactions_malformed_amount)
next
  fix row s e
  assume "row \<in> set csv" "csv_Fecha_valor row = Some s" "to_datetime_dmY py s = Inl e"
  then show "\<exists>e'. load_transactions py now cats db csv = (db, None, Inl e')"
    by (rule load_transactions_malformed_date)
next
  assume strings: "\<forall>row \<in> set df. Concepto row \<noteq> None"
  let ?dated = "filter (\<lambda>r. Fecha_valor r \<noteq> None) df"
  from strings have "\<forall>row \<in> set ?dated. Concepto row \<noteq> None"
    by simp
  from insert_loop_total [OF this, of py now db 0 0] obtain db' n k where
    r: "insert_loop py now db 0 0 ?dated = Inr (db', n, k)"
    by (metis prod_cases3)
  with insert_loop_without_NaT [OF strings, of py now db 0 0]
  have "insert_loop py now db 0 0 df =
          Inr (db', n, k + length (filter (\<lambda>r. Fecha_valor r = None) df))"
    by simp
  with r show "\<exists>db' n k.
         insert_transactions py now db ?dated = Inr (db', n, k) \<and>
         insert_transactions py now db df =
           Inr (db', n, k + length (filter (\<lambda>r. Fecha_valor r = None) df))"
    by (auto simp: insert_transactions_def)
qed

text \<open>
  An instance: a date in another format rejects a batch of two rows; and a batch of a
  dated row and a row without a date ends as the dated row alone does, with one more
  duplicate counted.
\<close>

theorem malformed_row_outcomes_witness:
  "(\<exists>e'. load_transactions py_ascii 1 [(ustr ''Uncategorized'', [])] init_database
     [\<lparr>csv_Fecha_valor = Some (ustr ''15/01/2024''), csv_Concepto = Some (ustr ''Coffee shop''),
       csv_Importe = Some (ustr ''-3,50'' @ euro)\<rparr>,
      \<lparr>csv_Fecha_valor = Some (ustr ''2024-01-16''), csv_Concepto = Some (ustr ''Bus ticket''),
       csv_Importe = Some (ustr ''-1,20'' @ 0xA0 # euro)\<rparr>] = (init_database, None, Inl e')) \<and>
   (\<exists>db' n k.
      insert_transactions py_ascii 1 init_database
        [\<lparr>Fecha_valor = Some \<lparr>year = 2024, month = 1, day = 15\<rparr>,
          Concepto = Some (ustr ''Coffee shop''), Importe = Finite 3.5,
          Tipo = ustr ''Debit'', Category = ustr ''Uncategorized''\<rparr>] = Inr (db', n, k) \<and>
      insert_transactions py_ascii 1 init_database
        [\<lparr>Fecha_valor = Some \<lparr>year = 2024, month = 1, day = 15\<rparr>,
          Concepto = Some (ustr ''Coffee shop''), Importe = Finite 3.5,
          Tipo = ustr ''Debit'', Category = ustr ''Uncategorized''\<rparr>,
         \<lparr>Fecha_valor = None, Concepto = Some (ustr ''Bus ticket''), Importe = Finite 1.2,
          Tipo = ustr ''Debit'', Category = ustr ''Uncategorized''\<rparr>] = Inr (db', n, k + 1))"
proof -
  let ?bad = "\<lparr>csv_Fecha_valor = Some (ustr ''2024-01-16''),
              csv_Concepto = Some (ustr ''Bus ticket''),
              csv_Importe = Some (ustr ''-1,20'' @ 0xA0 # euro)\<rparr>"
  let ?csv = "[\<lparr>csv_Fecha_valor = Some (ustr ''15/01/2024''),
                csv_Concepto = Some (ustr ''Coffee shop''),
                csv_Importe = Some (ustr ''-3,50'' @ euro)\<rparr>, ?bad]"
  let ?df = "[\<lparr>Fecha_valor = Some \<lparr>year = 2024, month = 1, day = 15\<rparr>,
          Concepto = Some (ustr ''Coffee shop''), Importe = Finite 3.5,
          Tipo = ustr ''Debit'', Category = ustr ''Uncategorized''\<rparr>,
         \<lparr>Fecha_valor = None, Concepto = Some (ustr ''Bus ticket''), Importe = Finite 1.2,
          Tipo = ustr ''Debit'', Category = ustr ''Uncategorized''\<rparr>]"
  note inst = malformed_row_outcomes
    [of ?csv py_ascii 1 "[(ustr ''Uncategorized'', [])]" init_database ?df]
  have bad: "to_datetime_dmY py_ascii (ustr ''2024-01-16'') = Inl ValueError"
    by (simp add: py_ascii_def strptime_dmY_def day_field_def)
  have "?bad \<in> set ?csv" "csv_Fecha_valor ?bad = Some (ustr ''2024-01-16'')"
    by simp_all
  with inst [THEN conjunct2, THEN conjunct1, rule_format,
      of ?bad "ustr ''2024-01-16''" ValueError] bad
  have a: "\<exists>e'. load_transactions py_ascii 1 [(ustr ''Uncategorized'', [])] init_database ?csv =
      (init_database, None, Inl e')"
    by blast
  have "\<forall>row \<in> set ?df. Concepto row \<noteq> None"
    by simp
  with inst [THEN conjunct2, THEN conjunct2] have b: "\<exists>db' n k.
      insert_transactions py_ascii 1 init_database
        [\<lparr>Fecha_valor = Some \<lparr>year = 2024, month = 1, day = 15\<rparr>,
          Concepto = Some (ustr ''Coffee shop''), Importe = Finite 3.5,
          Tipo = ustr ''Debit'', Category = ustr ''Uncategorized''\<rparr>] = Inr (db', n, k) \<and>
      insert_transactions py_ascii 1 init_database ?df = Inr (db', n, k + 1)"
    by simp
  from a b show ?thesis
    by blast
qed

text \<open>
  Claim C9 as stated fails on a batch with a malformed amount: the row is not skipped
  and counted; the whole batch is rejected, the well-formed first row is not stored and
  no counts are reported.
\<close>

theorem load_transactions_malformed_amount_counterexample:
  "load_transactions py_ascii 1 [(ustr ''Uncategorized'', [])] init_database
     [\<lparr>csv_Fecha_valor = Some (ustr ''15/01/2024''), csv_Concepto = Some (ustr ''Coffee shop''),
       csv_Importe = Some (ustr ''-3,50'' @ euro)\<rparr>,
      \<lparr>csv_Fecha_valor = Some (ustr ''16/01/2024''), csv_Concepto = Some (ustr ''Bus ticket''),
       csv_Importe = Some (ustr ''abc'')\<rparr>] = (init_database, None, Inl ValueError)"
proof -
  have "parse_importe py_ascii (Some (ustr ''abc'')) = Inl ValueError"
    by (simp add: float_eval)
  then show ?thesis
    by (intro load_transactions_malformed_amount
          [of "\<lparr>csv_Fecha_valor = Some (ustr ''16/01/2024''),
                csv_Concepto = Some (ustr ''Bus ticket''),
                csv_Importe = Some (ustr ''abc'')\<rparr>"])
       simp_all
qed

end
